theory Spec2Isabelle
  imports Main "HOL-Library.Word"
begin

section \<open>kafka/conn.py: endpoint parsing and the framed broker connection\<close>

text \<open>
  The module holds one pure function, \<^verbatim>\<open>collect_hosts\<close>, and the class
  \<^verbatim>\<open>KafkaConnection\<close>. Python exceptions are values of \<open>exn\<close>; a call either
  returns or raises. Python's unbounded integers are \<open>int\<close>, a byte is an \<open>8 word\<close>,
  a \<^verbatim>\<open>str\<close> is a \<open>string\<close>. The module runs under Python 2 and Python 3 and
  asks \<^verbatim>\<open>six.PY3\<close> which one it is; the functions that depend on it take it as the
  parameter \<open>PY3\<close>.
\<close>

datatype exn =
    ConnectionError   \<comment> \<open>\<^verbatim>\<open>kafka.common.ConnectionError\<close>\<close>
  | SocketError       \<comment> \<open>\<^verbatim>\<open>socket.error\<close>, \<^verbatim>\<open>socket.timeout\<close> included\<close>
  | ValueError
  | KeyError
  | AttributeError
  | TypeError
  | IndexError
  | StructError       \<comment> \<open>\<^verbatim>\<open>struct.error\<close>\<close>
  | SSLError          \<comment> \<open>\<^verbatim>\<open>ssl.SSLError\<close>, a socket error as well\<close>
  | SystemExit int    \<comment> \<open>raised by \<^verbatim>\<open>sys.exit\<close>\<close>

datatype 'a outcome = Return 'a | Raise exn

subsection \<open>The string built-ins the module calls\<close>

text \<open>
  \<^verbatim>\<open>str.strip()\<close> without argument removes leading and trailing whitespace; on byte
  strings these are space, tab, line feed, vertical tab, form feed and carriage return.
\<close>

definition is_space :: "char \<Rightarrow> bool" where
  "is_space c = (c \<in> set [CHR '' '', CHR 0x09, CHR 0x0A, CHR 0x0B, CHR 0x0C, CHR 0x0D])"

definition strip :: "string \<Rightarrow> string" where
  "strip s = rev (dropWhile is_space (rev (dropWhile is_space s)))"

text \<open>
  \<^verbatim>\<open>s.split(sep)\<close> with a one-character separator: the pieces between the
  separators, empty pieces kept, so the result is never empty
  (\<^verbatim>\<open>''.split(',') == ['']\<close>).
\<close>

fun split_on :: "char \<Rightarrow> string \<Rightarrow> string list" where
  "split_on sep [] = [[]]"
| "split_on sep (c # cs) =
     (if c = sep then [] # split_on sep cs
      else (case split_on sep cs of
              [] \<Rightarrow> [[c]]
            | t # ts \<Rightarrow> (c # t) # ts))"

text \<open>
  \<^verbatim>\<open>int(s)\<close> on a string: surrounding whitespace is ignored, then an optional sign
  and at least one decimal digit; anything else raises \<^verbatim>\<open>ValueError\<close>
  (\<open>None\<close> here). Digit grouping with underscores, which newer Python 3 accepts, is
  not modelled.
\<close>

definition digit_val :: "char \<Rightarrow> nat option" where
  "digit_val c = map_of (zip ''0123456789'' [0, 1, 2, 3, 4, 5, 6, 7, 8, 9]) c"

fun digits_val :: "nat \<Rightarrow> string \<Rightarrow> nat option" where
  "digits_val acc [] = Some acc"
| "digits_val acc (c # cs) =
     (case digit_val c of
        None \<Rightarrow> None
      | Some d \<Rightarrow> digits_val (10 * acc + d) cs)"

definition py_int :: "string \<Rightarrow> int option" where
  "py_int s =
     (case strip s of
        [] \<Rightarrow> None
      | c # cs \<Rightarrow>
          if c = CHR ''-'' then (if cs = [] then None else map_option (\<lambda>n. - int n) (digits_val 0 cs))
          else if c = CHR ''+'' then (if cs = [] then None else map_option int (digits_val 0 cs))
          else map_option int (digits_val 0 (c # cs)))"

text \<open>\<^verbatim>\<open>str.upper()\<close> on ASCII letters.\<close>

definition upper_char :: "char \<Rightarrow> char" where
  "upper_char c =
     (case map_of (zip ''abcdefghijklmnopqrstuvwxyz'' ''ABCDEFGHIJKLMNOPQRSTUVWXYZ'') c of
        None \<Rightarrow> c
      | Some u \<Rightarrow> u)"

definition upper :: "string \<Rightarrow> string" where
  "upper s = map upper_char s"

subsection \<open>\<^verbatim>\<open>collect_hosts\<close>\<close>

definition DEFAULT_SOCKET_TIMEOUT_SECONDS :: nat where
  "DEFAULT_SOCKET_TIMEOUT_SECONDS = 120"

definition DEFAULT_KAFKA_PORT :: int where
  "DEFAULT_KAFKA_PORT = 9092"

text \<open>The argument is a string or an already split sequence of strings.\<close>

datatype hosts_arg = HostsStr string | HostsSeq "string list"

text \<open>
  The body of the \<^verbatim>\<open>for host_port in hosts\<close> loop: \<^verbatim>\<open>res[0]\<close> is the host,
  \<^verbatim>\<open>int(res[1])\<close> the port when there is a second piece, and pieces after the
  second are not looked at.
\<close>

definition host_port_entry :: "string \<Rightarrow> (string \<times> int) outcome" where
  "host_port_entry host_port =
     (case split_on CHR '':'' host_port of
        [] \<Rightarrow> Raise IndexError
      | host # more \<Rightarrow>
          (case more of
             [] \<Rightarrow> Return (strip host, DEFAULT_KAFKA_PORT)
           | p # _ \<Rightarrow>
               (case py_int p of
                  None \<Rightarrow> Raise ValueError
                | Some port \<Rightarrow> Return (strip host, port))))"

fun collect_loop :: "string list \<Rightarrow> (string \<times> int) list \<Rightarrow> (string \<times> int) list outcome" where
  "collect_loop [] result = Return result"
| "collect_loop (host_port # hosts) result =
     (case host_port_entry host_port of
        Raise e \<Rightarrow> Raise e
      | Return ep \<Rightarrow> collect_loop hosts (result @ [ep]))"

text \<open>
  \<^verbatim>\<open>if isinstance(hosts, six.string_types): hosts = hosts.strip().split(',')\<close>
\<close>

definition host_tokens :: "hosts_arg \<Rightarrow> string list" where
  "host_tokens hosts =
     (case hosts of
        HostsStr s \<Rightarrow> split_on CHR '','' (strip s)
      | HostsSeq l \<Rightarrow> l)"

text \<open>
  \<^verbatim>\<open>random.shuffle\<close> draws from the interpreter's generator; it is the parameter
  \<open>shuffle\<close>, applied only when \<open>randomize\<close> is set.
\<close>

definition collect_hosts ::
  "((string \<times> int) list \<Rightarrow> (string \<times> int) list) \<Rightarrow> hosts_arg \<Rightarrow> bool \<Rightarrow> (string \<times> int) list outcome" where
  "collect_hosts shuffle hosts randomize =
     (case collect_loop (host_tokens hosts) [] of
        Raise e \<Rightarrow> Raise e
      | Return result \<Rightarrow> Return (if randomize then shuffle result else result))"

subsection \<open>Sockets and the network\<close>

text \<open>
  The socket library is outside the module, so what it answers is data of the model. A
  socket carries what its peer will deliver: \<open>pending\<close> is the inbound stream as the
  segments in which it arrives, a socket error or the end of the stream (the peer closed;
  every later read is empty again). \<^verbatim>\<open>recv(n)\<close> returns at most \<open>n\<close> bytes of the
  first segment and never joins two segments, so any fragmentation of a stream is a
  choice of segments. When nothing is pending the read waits: until the timeout, which is
  a \<^verbatim>\<open>socket.timeout\<close>, or forever when the timeout is \<^verbatim>\<open>None\<close>
  (\<open>None\<close> as the result of the model).
\<close>

type_synonym byte = "8 word"

text \<open>A value of the TLS options dictionary: a string or a number.\<close>

datatype sslval = Str string | Num int

definition CERT_NONE :: sslval where
  "CERT_NONE = Num 0"

text \<open>The keyword arguments \<^verbatim>\<open>ssl_wrapper\<close> passes to \<^verbatim>\<open>ssl.wrap_socket\<close>.\<close>

record wrap_args =
  keyfile :: "sslval option"
  certfile :: "sslval option"
  ca_certs :: "sslval option"
  server_side :: bool
  cert_reqs :: sslval
  ciphers :: "sslval option"

datatype rx = Data "byte list" | RecvError | Eof

datatype handshake = HandshakeOk | HandshakeSSLError | HandshakeSocketError

record socket =
  pending :: "rx list"
  send_fails :: bool
  handshake :: handshake
  sock_timeout :: "nat option"
  sent :: "byte list"
  tls :: "wrap_args option"

text \<open>
  The calls made on the socket library, in order. \<open>Connect\<close> records whether the dial
  succeeded.
\<close>

datatype io_call =
    Connect string int "nat option" bool
  | WrapSocket wrap_args
  | Recv int
  | SendAll "byte list"
  | Shutdown
  | Close

datatype dial = Refused | Accepted socket

text \<open>
  The network: the answer to each further \<^verbatim>\<open>socket.create_connection\<close>, and
  the calls made so far. When no answer is left the dial fails.
\<close>

record network =
  dials :: "dial list"
  trace :: "io_call list"

fun is_socket_error :: "exn \<Rightarrow> bool" where
  "is_socket_error SocketError = True"
| "is_socket_error SSLError = True"
| "is_socket_error _ = False"

definition create_connection :: "string \<Rightarrow> int \<Rightarrow> nat option \<Rightarrow> network \<Rightarrow> socket outcome \<times> network" where
  "create_connection h p t w =
     (case dials w of
        [] \<Rightarrow> (Raise SocketError, w\<lparr>trace := trace w @ [Connect h p t False]\<rparr>)
      | Refused # ds \<Rightarrow> (Raise SocketError, w\<lparr>dials := ds, trace := trace w @ [Connect h p t False]\<rparr>)
      | Accepted s # ds \<Rightarrow>
          (Return (s\<lparr>sock_timeout := t\<rparr>), w\<lparr>dials := ds, trace := trace w @ [Connect h p t True]\<rparr>))"

fun rx_take :: "nat \<Rightarrow> rx list \<Rightarrow> (byte list outcome \<times> rx list) option" where
  "rx_take n [] = None"
| "rx_take n (Eof # r) = Some (Return [], Eof # r)"
| "rx_take n (RecvError # r) = Some (Raise SocketError, r)"
| "rx_take n (Data bs # r) =
     (if bs = [] then rx_take n r
      else Some (Return (take n bs), if length bs \<le> n then r else Data (drop n bs) # r))"

text \<open>\<^verbatim>\<open>sock.recv(bufsize)\<close>; a negative size is a \<^verbatim>\<open>ValueError\<close>.\<close>

definition sock_recv :: "socket \<Rightarrow> int \<Rightarrow> network \<Rightarrow> (byte list outcome \<times> socket \<times> network) option" where
  "sock_recv s bufsize w =
     (let w' = w\<lparr>trace := trace w @ [Recv bufsize]\<rparr>
      in if bufsize < 0 then Some (Raise ValueError, s, w')
         else (case rx_take (nat bufsize) (pending s) of
                 None \<Rightarrow>
                   (case sock_timeout s of
                      None \<Rightarrow> None
                    | Some t \<Rightarrow> Some (Raise SocketError, s\<lparr>pending := []\<rparr>, w'))
               | Some (r, rest) \<Rightarrow> Some (r, s\<lparr>pending := rest\<rparr>, w')))"

definition sendall :: "socket \<Rightarrow> byte list \<Rightarrow> network \<Rightarrow> socket outcome \<times> network" where
  "sendall s payload w =
     (let w' = w\<lparr>trace := trace w @ [SendAll payload]\<rparr>
      in if send_fails s then (Raise SocketError, w')
         else (Return (s\<lparr>sent := sent s @ payload\<rparr>), w'))"

text \<open>
  \<^verbatim>\<open>ssl.wrap_socket\<close>: the handshake succeeds, fails with \<^verbatim>\<open>ssl.SSLError\<close>
  or fails with another socket error.
\<close>

definition wrap_socket :: "socket \<Rightarrow> wrap_args \<Rightarrow> network \<Rightarrow> socket outcome \<times> network" where
  "wrap_socket s args w =
     (let w' = w\<lparr>trace := trace w @ [WrapSocket args]\<rparr>
      in case handshake s of
           HandshakeOk \<Rightarrow> (Return (s\<lparr>tls := Some args\<rparr>), w')
         | HandshakeSSLError \<Rightarrow> (Raise SSLError, w')
         | HandshakeSocketError \<Rightarrow> (Raise SocketError, w'))"

text \<open>\<^verbatim>\<open>struct.unpack('>i', resp)\<close>: four bytes, big-endian, two's complement.\<close>

definition unpack_be_i32 :: "byte list \<Rightarrow> int outcome" where
  "unpack_be_i32 resp =
     (case resp of
        [b0, b1, b2, b3] \<Rightarrow>
          (let u = uint b0 * 2 ^ 24 + uint b1 * 2 ^ 16 + uint b2 * 2 ^ 8 + uint b3
           in Return (if 2 ^ 31 \<le> u then u - 2 ^ 32 else u))
      | _ \<Rightarrow> Raise StructError)"

subsection \<open>\<^verbatim>\<open>KafkaConnection\<close>\<close>

text \<open>
  The object's attributes. \<^verbatim>\<open>__init__\<close> sets all five and no method deletes one;
  \<^verbatim>\<open>copy\<close> sets four of them on the object it returns, so \<open>sslopts\<close> is the one
  attribute that an object of the class can lack (\<open>Unset\<close>). Its value is
  \<^verbatim>\<open>None\<close> or a dictionary, kept as the list of its items. \<open>sock\<close> is
  \<^verbatim>\<open>_sock\<close>: \<open>None\<close>, or the socket object, which is always true as a condition.
  The class derives from \<^verbatim>\<open>threading.local\<close>; the model follows the attributes as
  one thread sees them.
\<close>

datatype sslopts_attr = Unset | PyNone | Dict "(string \<times> sslval) list"

record kafka_connection =
  host :: string
  port :: int
  timeout :: "nat option"
  sock :: "socket option"
  sslopts :: sslopts_attr

text \<open>
  \<^verbatim>\<open>close\<close>: the shutdown may raise a socket error, which is passed over, so its
  answer changes nothing; then the socket is closed and the attribute cleared.
\<close>

definition close :: "kafka_connection \<Rightarrow> network \<Rightarrow> kafka_connection \<times> network" where
  "close self w =
     (case sock self of
        Some s \<Rightarrow> (self\<lparr>sock := None\<rparr>, w\<lparr>trace := trace w @ [Shutdown, Close]\<rparr>)
      | None \<Rightarrow> (self, w))"

definition raise_connection_error :: "kafka_connection \<Rightarrow> network \<Rightarrow> 'a outcome \<times> kafka_connection \<times> network" where
  "raise_connection_error self w =
     (let (self', w') = (if sock self \<noteq> None then close self w else (self, w))
      in (Raise ConnectionError, self', w'))"

definition supported :: "bool \<Rightarrow> string list" where
  "supported PY3 =
     [''security.protocol'', ''keyfile'', ''certfile'', ''cert_reqs'', ''ca_certs'']
     @ (if PY3 then [''ciphers''] else [])"

text \<open>
  \<^verbatim>\<open>ssl_wrapper\<close>. The loop over the keys exits the process at the first key that is
  not supported. The verification mode is read under the key \<^verbatim>\<open>'ca_reqs'\<close> when
  \<^verbatim>\<open>'cert_reqs'\<close> is a key, as the source has it, and a missing key is a
  \<^verbatim>\<open>KeyError\<close>. An \<^verbatim>\<open>ssl.SSLError\<close> of the handshake is logged and passed
  over, and \<^verbatim>\<open>_sock\<close> keeps the plain socket. Every call in the module comes right
  after \<^verbatim>\<open>_sock\<close> was assigned; without a socket the wrap library reads an attribute
  of \<^verbatim>\<open>None\<close>.
\<close>

definition ssl_wrapper :: "bool \<Rightarrow> kafka_connection \<Rightarrow> network \<Rightarrow> unit outcome \<times> kafka_connection \<times> network" where
  "ssl_wrapper PY3 self w =
     (case sslopts self of
        Unset \<Rightarrow> (Raise AttributeError, self, w)
      | PyNone \<Rightarrow> (Raise TypeError, self, w)
      | Dict d \<Rightarrow>
          if list_ex (\<lambda>key. key \<notin> set (supported PY3)) (map fst d) then (Raise (SystemExit 1), self, w)
          else
            (case (if ''cert_reqs'' \<in> set (map fst d)
                   then (case map_of d ''ca_reqs'' of None \<Rightarrow> Raise KeyError | Some v \<Rightarrow> Return v)
                   else Return CERT_NONE) of
               Raise e \<Rightarrow> (Raise e, self, w)
             | Return reqs \<Rightarrow>
                 (let args = \<lparr>keyfile = map_of d ''keyfile'',
                              certfile = map_of d ''certfile'',
                              ca_certs = map_of d ''ca_certs'',
                              server_side = False,
                              cert_reqs = reqs,
                              ciphers = (if PY3 then map_of d ''ciphers'' else None)\<rparr>
                  in case sock self of
                       None \<Rightarrow> (Raise AttributeError, self, w)
                     | Some s \<Rightarrow>
                         (case wrap_socket s args w of
                            (Return s', w') \<Rightarrow> (Return (), self\<lparr>sock := Some s'\<rparr>, w')
                          | (Raise e, w') \<Rightarrow>
                              if e = SSLError then (Return (), self, w') else (Raise e, self, w')))))"

text \<open>
  The condition of \<^verbatim>\<open>reinit\<close>:
  \<^verbatim>\<open>self.sslopts and 'security.protocol' in self.sslopts\<close>, then
  \<^verbatim>\<open>self.sslopts['security.protocol'].upper() == 'SSL'\<close>. \<^verbatim>\<open>None\<close> and the
  empty dictionary are false; a number has no \<^verbatim>\<open>upper\<close>.
\<close>

definition tls_requested :: "sslopts_attr \<Rightarrow> bool outcome" where
  "tls_requested so =
     (case so of
        Unset \<Rightarrow> Raise AttributeError
      | PyNone \<Rightarrow> Return False
      | Dict d \<Rightarrow>
          if d = [] then Return False
          else (case map_of d ''security.protocol'' of
                  None \<Rightarrow> Return False
                | Some (Str p) \<Rightarrow> Return (upper p = ''SSL'')
                | Some (Num n) \<Rightarrow> Raise AttributeError))"

text \<open>
  \<^verbatim>\<open>reinit\<close>: the handler of the \<^verbatim>\<open>try\<close> catches socket errors only, every
  other exception leaves the method with \<^verbatim>\<open>_sock\<close> as it is.
\<close>

definition reinit :: "bool \<Rightarrow> kafka_connection \<Rightarrow> network \<Rightarrow> unit outcome \<times> kafka_connection \<times> network" where
  "reinit PY3 self w =
     (let (self1, w1) = (if sock self \<noteq> None then close self w else (self, w))
      in case create_connection (host self1) (port self1) (timeout self1) w1 of
           (Raise e, w2) \<Rightarrow>
             if is_socket_error e then raise_connection_error self1 w2 else (Raise e, self1, w2)
         | (Return s, w2) \<Rightarrow>
             (let self2 = self1\<lparr>sock := Some s\<rparr>
              in case tls_requested (sslopts self2) of
                   Raise e \<Rightarrow> (Raise e, self2, w2)
                 | Return False \<Rightarrow> (Return (), self2, w2)
                 | Return True \<Rightarrow>
                     (case ssl_wrapper PY3 self2 w2 of
                        (Raise e, self3, w3) \<Rightarrow>
                          if is_socket_error e then raise_connection_error self3 w3
                          else (Raise e, self3, w3)
                      | (Return u, self3, w3) \<Rightarrow> (Return (), self3, w3))))"

text \<open>
  \<^verbatim>\<open>__init__(host, port, sslopts=None, timeout=120)\<close> stores its arguments, sets
  \<^verbatim>\<open>_sock\<close> to \<^verbatim>\<open>None\<close> and calls \<^verbatim>\<open>reinit\<close>.
\<close>

definition init :: "bool \<Rightarrow> string \<Rightarrow> int \<Rightarrow> sslopts_attr \<Rightarrow> nat option \<Rightarrow> network \<Rightarrow> unit outcome \<times> kafka_connection \<times> network" where
  "init PY3 h p so t w =
     reinit PY3 \<lparr>host = h, port = p, timeout = t, sock = None, sslopts = so\<rparr> w"

text \<open>
  The \<^verbatim>\<open>while bytes_left\<close> loop of \<^verbatim>\<open>_read_bytes\<close>. Any count but 0 is true,
  a negative one too. The test \<^verbatim>\<open>data == ''\<close> compares with a \<^verbatim>\<open>str\<close>: the
  socket returns a \<^verbatim>\<open>str\<close> under Python 2 and \<^verbatim>\<open>bytes\<close> under Python 3, and
  \<^verbatim>\<open>bytes\<close> never equal a \<^verbatim>\<open>str\<close>. The loop may not end, so its result is an
  option: \<open>None\<close> when it does not return.
\<close>

partial_function (option) read_loop ::
  "bool \<Rightarrow> int \<Rightarrow> byte list list \<Rightarrow> kafka_connection \<Rightarrow> network \<Rightarrow> (byte list outcome \<times> kafka_connection \<times> network) option" where
  "read_loop PY3 bytes_left responses self w =
     (if bytes_left = 0 then Some (Return (concat responses), self, w)
      else (case sock self of
              None \<Rightarrow> Some (Raise AttributeError, self, w)
            | Some s \<Rightarrow>
                (case sock_recv s (min bytes_left 4096) w of
                   None \<Rightarrow> None
                 | Some (Raise e, s', w') \<Rightarrow>
                     if is_socket_error e then Some (raise_connection_error (self\<lparr>sock := Some s'\<rparr>) w')
                     else Some (Raise e, self\<lparr>sock := Some s'\<rparr>, w')
                 | Some (Return data, s', w') \<Rightarrow>
                     if data = [] \<and> \<not> PY3 then Some (raise_connection_error (self\<lparr>sock := Some s'\<rparr>) w')
                     else read_loop PY3 (bytes_left - int (length data)) (responses @ [data])
                            (self\<lparr>sock := Some s'\<rparr>) w')))"

declare read_loop.simps [code]

definition read_bytes :: "bool \<Rightarrow> kafka_connection \<Rightarrow> int \<Rightarrow> network \<Rightarrow> (byte list outcome \<times> kafka_connection \<times> network) option" where
  "read_bytes PY3 self num_bytes w =
     (case (if sock self = None then reinit PY3 self w else (Return (), self, w)) of
        (Raise e, self1, w1) \<Rightarrow> Some (Raise e, self1, w1)
      | (Return u, self1, w1) \<Rightarrow> read_loop PY3 num_bytes [] self1 w1)"

definition send :: "bool \<Rightarrow> kafka_connection \<Rightarrow> int \<Rightarrow> byte list \<Rightarrow> network \<Rightarrow> unit outcome \<times> kafka_connection \<times> network" where
  "send PY3 self request_id payload w =
     (case (if sock self = None then reinit PY3 self w else (Return (), self, w)) of
        (Raise e, self1, w1) \<Rightarrow> (Raise e, self1, w1)
      | (Return u, self1, w1) \<Rightarrow>
          (case sock self1 of
             None \<Rightarrow> (Raise AttributeError, self1, w1)
           | Some s \<Rightarrow>
               (case sendall s payload w1 of
                  (Raise e, w2) \<Rightarrow>
                    if is_socket_error e then raise_connection_error self1 w2 else (Raise e, self1, w2)
                | (Return s', w2) \<Rightarrow> (Return (), self1\<lparr>sock := Some s'\<rparr>, w2))))"

definition recv :: "bool \<Rightarrow> kafka_connection \<Rightarrow> int \<Rightarrow> network \<Rightarrow> (byte list outcome \<times> kafka_connection \<times> network) option" where
  "recv PY3 self request_id w =
     (case read_bytes PY3 self 4 w of
        None \<Rightarrow> None
      | Some (Raise e, self1, w1) \<Rightarrow> Some (Raise e, self1, w1)
      | Some (Return resp, self1, w1) \<Rightarrow>
          (case unpack_be_i32 resp of
             Raise e \<Rightarrow> Some (Raise e, self1, w1)
           | Return size' \<Rightarrow> read_bytes PY3 self1 size' w1))"

text \<open>
  \<^verbatim>\<open>copy\<close>: \<^verbatim>\<open>copy.deepcopy(self)\<close>, then \<^verbatim>\<open>host\<close>, \<^verbatim>\<open>port\<close>,
  \<^verbatim>\<open>timeout\<close> and \<^verbatim>\<open>_sock\<close> are assigned, so \<open>sslopts\<close> is the one attribute
  whose value is what the deep copy made of it. On this subclass of
  \<^verbatim>\<open>threading.local\<close> the deep copy of Python 2 copies the attributes, and that of
  Python 3 copies none of them, which is what the source's comment before the
  assignments says.
\<close>

definition deepcopy_sslopts :: "bool \<Rightarrow> sslopts_attr \<Rightarrow> sslopts_attr" where
  "deepcopy_sslopts PY3 so = (if PY3 then Unset else so)"

definition copy :: "bool \<Rightarrow> kafka_connection \<Rightarrow> kafka_connection" where
  "copy PY3 self =
     \<lparr>host = host self, port = port self, timeout = timeout self, sock = None,
      sslopts = deepcopy_sslopts PY3 (sslopts self)\<rparr>"

subsection \<open>What the statements observe\<close>

text \<open>
  The segments that are left of an inbound stream once \<open>n\<close> bytes of it were read.
\<close>

fun drop_bytes :: "nat \<Rightarrow> 'a list list \<Rightarrow> 'a list list" where
  "drop_bytes n [] = []"
| "drop_bytes n (c # cs) =
     (if n = 0 then c # cs
      else if length c \<le> n then drop_bytes (n - length c) cs
      else drop n c # cs)"

text \<open>
  Socket handles that a sequence of library calls leaves open: a successful dial opens
  one, a close releases one. \<open>live\<close> counts the handle a connection object holds.
\<close>

fun handle_delta :: "io_call \<Rightarrow> int" where
  "handle_delta (Connect h p t ok) = (if ok then 1 else 0)"
| "handle_delta Close = - 1"
| "handle_delta _ = 0"

definition open_handles :: "io_call list \<Rightarrow> int" where
  "open_handles calls = sum_list (map handle_delta calls)"

definition live :: "kafka_connection \<Rightarrow> int" where
  "live self = (if sock self = None then 0 else 1)"

fun is_dial_ok :: "io_call \<Rightarrow> bool" where
  "is_dial_ok (Connect h p t ok) = ok"
| "is_dial_ok _ = False"

fun is_connect :: "io_call \<Rightarrow> bool" where
  "is_connect (Connect h p t ok) = True"
| "is_connect _ = False"

fun is_recv :: "io_call \<Rightarrow> bool" where
  "is_recv (Recv n) = True"
| "is_recv _ = False"

text \<open>
  Values for the worked instances: a socket whose peer delivers \<open>rx\<close>, a connection
  object for the broker at port 9092, a network with the given dial answers and no call
  made yet.
\<close>

definition peer :: "rx list \<Rightarrow> socket" where
  "peer rx = \<lparr>pending = rx, send_fails = False, handshake = HandshakeOk,
              sock_timeout = Some 120, sent = [], tls = None\<rparr>"

definition client :: "socket option \<Rightarrow> sslopts_attr \<Rightarrow> kafka_connection" where
  "client so opts = \<lparr>host = ''broker'', port = 9092, timeout = Some 120, sock = so, sslopts = opts\<rparr>"

definition fresh_network :: "dial list \<Rightarrow> network" where
  "fresh_network ds = \<lparr>dials = ds, trace = []\<rparr>"

section \<open>Properties of \<^verbatim>\<open>collect_hosts\<close>\<close>

lemma split_on_nonempty: "split_on sep s \<noteq> []"
  by (induction s) (auto split: list.splits)

lemma split_on_no_sep: "sep \<notin> set s \<Longrightarrow> split_on sep s = [s]"
  by (induction s) auto

lemma collect_loop_Return:
  "collect_loop hs acc = Return r \<Longrightarrow> \<exists>es. r = acc @ es \<and> map host_port_entry hs = map Return es"
proof (induction hs arbitrary: acc)
  case Nil
  then show ?case by simp
next
  case (Cons h hs)
  from Cons.prems obtain ep where ep: "host_port_entry h = Return ep"
    and rest: "collect_loop hs (acc @ [ep]) = Return r"
    by (auto split: outcome.splits)
  from Cons.IH [OF rest] obtain es where "r = (acc @ [ep]) @ es" "map host_port_entry hs = map Return es"
    by blast
  with ep show ?case by (intro exI [of _ "ep # es"]) simp
qed

lemma collect_loop_Raise:
  "collect_loop hs acc = Raise e \<Longrightarrow> \<exists>h \<in> set hs. host_port_entry h = Raise e"
  by (induction hs arbitrary: acc) (auto split: outcome.splits)

lemma collect_loop_all_Return:
  "map host_port_entry hs = map Return es \<Longrightarrow> collect_loop hs acc = Return (acc @ es)"
  by (induction hs arbitrary: acc es) auto

lemma split_on_single: "split_on sep s = [a] \<Longrightarrow> a = s"
  by (induction s arbitrary: a) (auto split: if_splits list.splits simp: split_on_nonempty)

lemma split_on_short: "\<not> 1 < length (split_on sep s) \<Longrightarrow> split_on sep s = [s]"
proof -
  assume "\<not> 1 < length (split_on sep s)"
  then obtain a where "split_on sep s = [a]"
    using split_on_nonempty [of sep s] by (cases "split_on sep s") auto
  then show ?thesis by (simp add: split_on_single)
qed

lemma host_port_entry_cases:
  "host_port_entry tok =
     (if length (split_on CHR '':'' tok) > 1
      then (case py_int (split_on CHR '':'' tok ! 1) of
              None \<Rightarrow> Raise ValueError
            | Some p \<Rightarrow> Return (strip (hd (split_on CHR '':'' tok)), p))
      else Return (strip tok, DEFAULT_KAFKA_PORT))"
proof (cases "CHR '':'' \<in> set tok")
  case False
  then show ?thesis by (simp add: host_port_entry_def split_on_no_sep)
next
  case True
  show ?thesis
    by (cases "split_on CHR '':'' tok") (auto simp: host_port_entry_def split_on_nonempty split_on_no_sep split: list.splits option.splits dest: split_on_single)
qed

lemma host_port_entry_host:
  "host_port_entry tok = Return ep \<Longrightarrow> fst ep = strip (hd (split_on CHR '':'' tok))"
  by (cases "1 < length (split_on CHR '':'' tok)")
     (auto simp: host_port_entry_cases split_on_short split: option.splits)

lemma strip_trimmed: "strip s \<noteq> [] \<Longrightarrow> \<not> is_space (hd (strip s)) \<and> \<not> is_space (last (strip s))"
proof -
  define t where "t = dropWhile is_space s"
  define n where "n = length (takeWhile is_space (rev t))"
  have st: "strip s = take (length t - n) t"
    unfolding strip_def t_def [symmetric] n_def
    by (simp add: dropWhile_eq_drop rev_drop)
  assume ne: "strip s \<noteq> []"
  then have tne: "t \<noteq> []" and pos: "0 < length t - n"
    using st by auto
  have "\<not> is_space (hd t)"
    using tne unfolding t_def by (rule hd_dropWhile)
  moreover have "hd (strip s) = hd t"
    using pos st by (simp add: hd_take)
  moreover have "last (strip s) = hd (dropWhile is_space (rev t))"
    using ne unfolding strip_def t_def [symmetric] by (simp add: last_rev)
  moreover have "dropWhile is_space (rev t) \<noteq> []"
    using ne unfolding strip_def t_def [symmetric] by simp
  then have "\<not> is_space (hd (dropWhile is_space (rev t)))"
    by (rule hd_dropWhile)
  ultimately show ?thesis by simp
qed

text \<open>
  C8. With randomization off, \<^verbatim>\<open>collect_hosts("a:1,b,c:3")\<close> is
  \<^verbatim>\<open>[('a', 1), ('b', 9092), ('c', 3)]\<close> in this order. In general, when the call
  returns, there is one endpoint per token, in the order of the tokens; its host is the
  text before the token's first colon with the surrounding whitespace removed (it neither
  starts nor ends with whitespace), and a token without a colon gets the port 9092.
\<close>

theorem collect_hosts_example_and_default_port:
  "collect_hosts shuffle (HostsStr ''a:1,b,c:3'') False = Return [(''a'', 1), (''b'', 9092), (''c'', 3)]
   \<and> (collect_hosts shuffle hosts False = Return r \<longrightarrow>
        length r = length (host_tokens hosts)
        \<and> (\<forall>i < length r.
              fst (r ! i) = strip (hd (split_on CHR '':'' (host_tokens hosts ! i)))
              \<and> (fst (r ! i) \<noteq> [] \<longrightarrow> \<not> is_space (hd (fst (r ! i))) \<and> \<not> is_space (last (fst (r ! i))))
              \<and> (CHR '':'' \<notin> set (host_tokens hosts ! i) \<longrightarrow> r ! i = (strip (host_tokens hosts ! i), 9092))))"
proof (intro conjI impI)
  show "collect_hosts shuffle (HostsStr ''a:1,b,c:3'') False = Return [(''a'', 1), (''b'', 9092), (''c'', 3)]"
    by (simp add: collect_hosts_def host_tokens_def host_port_entry_def strip_def is_space_def
        py_int_def digit_val_def DEFAULT_KAFKA_PORT_def)
next
  assume "collect_hosts shuffle hosts False = Return r"
  then have "collect_loop (host_tokens hosts) [] = Return r"
    by (simp add: collect_hosts_def split: outcome.splits)
  then have m: "map host_port_entry (host_tokens hosts) = map Return r"
    by (auto dest: collect_loop_Return)
  then show len: "length r = length (host_tokens hosts)"
    by (metis length_map)
  show "\<forall>i < length r.
              fst (r ! i) = strip (hd (split_on CHR '':'' (host_tokens hosts ! i)))
              \<and> (fst (r ! i) \<noteq> [] \<longrightarrow> \<not> is_space (hd (fst (r ! i))) \<and> \<not> is_space (last (fst (r ! i))))
              \<and> (CHR '':'' \<notin> set (host_tokens hosts ! i) \<longrightarrow> r ! i = (strip (host_tokens hosts ! i), 9092))"
  proof (intro allI impI)
    fix i assume i: "i < length r"
    let ?tok = "host_tokens hosts ! i"
    have e: "host_port_entry ?tok = Return (r ! i)"
      using m i len by (metis nth_map)
    have h: "fst (r ! i) = strip (hd (split_on CHR '':'' ?tok))"
      using e by (rule host_port_entry_host)
    show "fst (r ! i) = strip (hd (split_on CHR '':'' ?tok))
              \<and> (fst (r ! i) \<noteq> [] \<longrightarrow> \<not> is_space (hd (fst (r ! i))) \<and> \<not> is_space (last (fst (r ! i))))
              \<and> (CHR '':'' \<notin> set ?tok \<longrightarrow> r ! i = (strip ?tok, 9092))"
      using e h strip_trimmed [of "hd (split_on CHR '':'' ?tok)"]
      by (auto simp: host_port_entry_def split_on_no_sep DEFAULT_KAFKA_PORT_def)
  qed
qed


theorem collect_hosts_example_and_default_port_witness:
  "collect_hosts id (HostsStr '' kafka1 ,b:2'') False = Return [(''kafka1'', 9092), (''b'', 2)]
   \<and> length [(''kafka1'', 9092 :: int), (''b'', 2)] = length (host_tokens (HostsStr '' kafka1 ,b:2''))
   \<and> CHR '':'' \<notin> set (host_tokens (HostsStr '' kafka1 ,b:2'') ! 0)
   \<and> [(''kafka1'', 9092 :: int), (''b'', 2)] ! 0 = (strip (host_tokens (HostsStr '' kafka1 ,b:2'') ! 0), 9092)"
proof -
  have ret: "collect_hosts id (HostsStr '' kafka1 ,b:2'') False = Return [(''kafka1'', 9092), (''b'', 2)]"
    by (simp add: collect_hosts_def host_tokens_def host_port_entry_def strip_def is_space_def
        py_int_def digit_val_def DEFAULT_KAFKA_PORT_def)
  have tok: "CHR '':'' \<notin> set (host_tokens (HostsStr '' kafka1 ,b:2'') ! 0)"
    by (simp add: host_tokens_def strip_def is_space_def)
  from collect_hosts_example_and_default_port
    [of id "HostsStr '' kafka1 ,b:2''" "[(''kafka1'', 9092), (''b'', 2)]"] ret
  have len: "length [(''kafka1'', 9092 :: int), (''b'', 2)] = length (host_tokens (HostsStr '' kafka1 ,b:2''))"
    and all: "\<forall>i < length [(''kafka1'', 9092 :: int), (''b'', 2)].
         CHR '':'' \<notin> set (host_tokens (HostsStr '' kafka1 ,b:2'') ! i) \<longrightarrow>
         [(''kafka1'', 9092 :: int), (''b'', 2)] ! i = (strip (host_tokens (HostsStr '' kafka1 ,b:2'') ! i), 9092)"
    by blast+
  have "0 < length [(''kafka1'', 9092 :: int), (''b'', 2)]" by simp
  with all tok have "[(''kafka1'', 9092 :: int), (''b'', 2)] ! 0 = (strip (host_tokens (HostsStr '' kafka1 ,b:2'') ! 0), 9092)"
    by blast
  with ret len tok show ?thesis by blast
qed

text \<open>
  C9, as the spec states it, fails: the port text goes through \<^verbatim>\<open>int\<close>, which
  raises \<^verbatim>\<open>ValueError\<close> on \<^verbatim>\<open>"a:b"\<close>.
\<close>

theorem collect_hosts_raises_on_bad_port:
  "collect_hosts id (HostsStr ''a:b'') False = Raise ValueError"
  by (simp add: collect_hosts_def host_tokens_def host_port_entry_def strip_def is_space_def
      py_int_def digit_val_def)

text \<open>
  C9, amended. \<^verbatim>\<open>collect_hosts\<close> returns an endpoint list exactly when every token
  with a colon has, as its second piece, text that \<^verbatim>\<open>int\<close> accepts; otherwise it
  raises \<^verbatim>\<open>ValueError\<close>. No other error arises, and the host text is never checked.
\<close>

theorem collect_hosts_returns_iff_ports_parse:
  "((\<exists>r. collect_hosts shuffle hosts randomize = Return r) =
      (\<forall>tok \<in> set (host_tokens hosts).
          1 < length (split_on CHR '':'' tok) \<longrightarrow> py_int (split_on CHR '':'' tok ! 1) \<noteq> None))
   \<and> ((\<nexists>r. collect_hosts shuffle hosts randomize = Return r) \<longrightarrow>
          collect_hosts shuffle hosts randomize = Raise ValueError)"
proof (intro conjI impI)
  let ?ok = "\<lambda>tok. 1 < length (split_on CHR '':'' tok) \<longrightarrow> py_int (split_on CHR '':'' tok ! 1) \<noteq> None"
  have entry: "(\<exists>ep. host_port_entry tok = Return ep) = ?ok tok" for tok
    by (auto simp: host_port_entry_cases split: option.splits)
  have bad: "host_port_entry tok = Raise e \<Longrightarrow> e = ValueError" for tok e
    by (auto simp: host_port_entry_cases split: option.splits if_splits)
  show "(\<exists>r. collect_hosts shuffle hosts randomize = Return r) = (\<forall>tok \<in> set (host_tokens hosts). ?ok tok)"
  proof
    assume "\<exists>r. collect_hosts shuffle hosts randomize = Return r"
    then obtain r where "collect_loop (host_tokens hosts) [] = Return r"
      by (auto simp: collect_hosts_def split: outcome.splits)
    then obtain es where m: "map host_port_entry (host_tokens hosts) = map Return es"
      by (auto dest: collect_loop_Return)
    show "\<forall>tok \<in> set (host_tokens hosts). ?ok tok"
    proof
      fix tok assume "tok \<in> set (host_tokens hosts)"
      then have "host_port_entry tok \<in> set (map Return es)"
        using m by (metis image_eqI list.set_map)
      then have "\<exists>ep. host_port_entry tok = Return ep" by auto
      then show "?ok tok" by (simp only: entry)
    qed
  next
    assume all: "\<forall>tok \<in> set (host_tokens hosts). ?ok tok"
    have "\<exists>es. map host_port_entry hs = map Return es" if "\<forall>tok \<in> set hs. ?ok tok" for hs
      using that
    proof (induction hs)
      case Nil
      then show ?case by simp
    next
      case (Cons h hs)
      then obtain es where es: "map host_port_entry hs = map Return es" by auto
      from Cons.prems have "?ok h" by simp
      then obtain ep where "host_port_entry h = Return ep"
        by (auto simp only: entry [symmetric])
      with es have "map host_port_entry (h # hs) = map Return (ep # es)" by simp
      then show ?case by blast
    qed
    with all obtain es where "map host_port_entry (host_tokens hosts) = map Return es" by blast
    then have "collect_loop (host_tokens hosts) [] = Return ([] @ es)"
      by (rule collect_loop_all_Return)
    then show "\<exists>r. collect_hosts shuffle hosts randomize = Return r"
      by (simp add: collect_hosts_def)
  qed
  assume no: "\<nexists>r. collect_hosts shuffle hosts randomize = Return r"
  then obtain e where e: "collect_loop (host_tokens hosts) [] = Raise e"
    by (cases "collect_loop (host_tokens hosts) []") (auto simp: collect_hosts_def)
  then obtain h where "host_port_entry h = Raise e"
    by (auto dest: collect_loop_Raise)
  then have "e = ValueError" by (rule bad)
  with e show "collect_hosts shuffle hosts randomize = Raise ValueError"
    by (simp add: collect_hosts_def)
qed

theorem collect_hosts_returns_iff_ports_parse_witness:
  "(\<exists>r. collect_hosts rev (HostsSeq [''h1:9093'', ''h2'']) True = Return r)
   \<and> collect_hosts rev (HostsSeq [''h1:x'', ''h2'']) True = Raise ValueError"
proof -
  have ok: "\<forall>tok \<in> set (host_tokens (HostsSeq [''h1:9093'', ''h2''])).
      1 < length (split_on CHR '':'' tok) \<longrightarrow> py_int (split_on CHR '':'' tok ! 1) \<noteq> None"
    by (simp add: host_tokens_def py_int_def strip_def is_space_def digit_val_def)
  have bad: "\<not> (\<forall>tok \<in> set (host_tokens (HostsSeq [''h1:x'', ''h2''])).
      1 < length (split_on CHR '':'' tok) \<longrightarrow> py_int (split_on CHR '':'' tok ! 1) \<noteq> None)"
    by (simp add: host_tokens_def py_int_def strip_def is_space_def digit_val_def)
  from ok have "\<exists>r. collect_hosts rev (HostsSeq [''h1:9093'', ''h2'']) True = Return r"
    using collect_hosts_returns_iff_ports_parse [of rev "HostsSeq [''h1:9093'', ''h2'']" True] by blast
  moreover from bad have "collect_hosts rev (HostsSeq [''h1:x'', ''h2'']) True = Raise ValueError"
    using collect_hosts_returns_iff_ports_parse [of rev "HostsSeq [''h1:x'', ''h2'']" True] by blast
  ultimately show ?thesis by blast
qed

section \<open>Properties of \<^verbatim>\<open>KafkaConnection\<close>\<close>

subsection \<open>What each method does to the handle and to the calls made\<close>

lemma open_handles_append [simp]: "open_handles (xs @ ys) = open_handles xs + open_handles ys"
  by (simp add: open_handles_def)

lemma open_handles_simps [simp]:
  "open_handles [] = 0"
  "open_handles (c # cs) = handle_delta c + open_handles cs"
  by (simp_all add: open_handles_def)

lemma close_effect:
  "close self w = (self', w') \<Longrightarrow>
     sock self' = None \<and> dials w' = dials w \<and>
     (\<exists>ext. trace w' = trace w @ ext \<and> open_handles ext = live self' - live self \<and> \<not> list_ex is_dial_ok ext)"
  by (auto simp: close_def live_def split: option.splits)

lemma raise_connection_error_effect:
  "raise_connection_error self w = (r, self', w') \<Longrightarrow>
     r = Raise ConnectionError \<and> sock self' = None \<and>
     (\<exists>ext. trace w' = trace w @ ext \<and> open_handles ext = live self' - live self \<and> \<not> list_ex is_dial_ok ext)"
  by (auto simp: raise_connection_error_def close_def live_def split: option.splits if_splits)

lemma ssl_wrapper_effect:
  "ssl_wrapper PY3 self w = (r, self', w') \<Longrightarrow>
     r \<noteq> Raise ConnectionError \<and> (sock self' = None) = (sock self = None) \<and>
     (\<exists>ext. trace w' = trace w @ ext \<and> open_handles ext = 0 \<and> \<not> list_ex is_dial_ok ext)"
  by (auto simp: ssl_wrapper_def wrap_socket_def Let_def
      split: sslopts_attr.splits if_splits outcome.splits option.splits handshake.splits prod.splits)


lemma create_connection_effect:
  "create_connection h p t w = (r, w') \<Longrightarrow>
     (r = Raise SocketError \<and> trace w' = trace w @ [Connect h p t False])
     \<or> (\<exists>s. r = Return s \<and> trace w' = trace w @ [Connect h p t True])"
  by (auto simp: create_connection_def split: list.splits dial.splits)

lemma tls_requested_effect: "tls_requested so = Raise e \<Longrightarrow> e = AttributeError"
  by (auto simp: tls_requested_def split: sslopts_attr.splits if_splits option.splits sslval.splits)

lemma reinit_effect:
  assumes "reinit PY3 self w = (r, self', w')"
  shows "(r = Raise ConnectionError \<longrightarrow> sock self' = None)
       \<and> (r = Return () \<longrightarrow> sock self' \<noteq> None)
       \<and> (\<exists>ext. trace w' = trace w @ ext \<and> open_handles ext = live self' - live self)"
proof -
  obtain self1 w1 where c: "(if sock self \<noteq> None then close self w else (self, w)) = (self1, w1)"
    by (cases "if sock self \<noteq> None then close self w else (self, w)")
  then have s1: "sock self1 = None"
    and e1: "\<exists>ext. trace w1 = trace w @ ext \<and> open_handles ext = live self1 - live self"
    by (auto simp: live_def split: if_splits dest!: close_effect)
  obtain rc w2 where cc: "create_connection (host self1) (port self1) (timeout self1) w1 = (rc, w2)"
    by (cases "create_connection (host self1) (port self1) (timeout self1) w1")
  from create_connection_effect [OF cc] show ?thesis
  proof
    assume f: "rc = Raise SocketError \<and> trace w2 = trace w1 @ [Connect (host self1) (port self1) (timeout self1) False]"
    with assms c cc have "raise_connection_error self1 w2 = (r, self', w')"
      by (simp add: reinit_def)
    from raise_connection_error_effect [OF this] f s1 e1 show ?thesis
      by (auto simp: live_def)
  next
    assume "\<exists>s. rc = Return s \<and> trace w2 = trace w1 @ [Connect (host self1) (port self1) (timeout self1) True]"
    then obtain s where rc: "rc = Return s"
      and t2: "trace w2 = trace w1 @ [Connect (host self1) (port self1) (timeout self1) True]" by blast
    let ?self2 = "self1\<lparr>sock := Some s\<rparr>"
    have e2: "\<exists>ext. trace w2 = trace w @ ext \<and> open_handles ext = live ?self2 - live self"
      using e1 t2 s1 by (auto simp: live_def)
    show ?thesis
    proof (cases "tls_requested (sslopts ?self2)")
      case (Raise e)
      with assms c cc rc have "r = Raise e" "self' = ?self2" "w' = w2"
        by (simp_all add: reinit_def)
      moreover have "e = AttributeError" using Raise by (rule tls_requested_effect)
      ultimately show ?thesis using e2 by simp
    next
      case (Return b)
      show ?thesis
      proof (cases b)
        case False
        with Return assms c cc rc have "r = Return ()" "self' = ?self2" "w' = w2"
          by (simp_all add: reinit_def)
        then show ?thesis using e2 by simp
      next
        case True
        obtain rw self3 w3 where sw: "ssl_wrapper PY3 ?self2 w2 = (rw, self3, w3)"
          by (cases "ssl_wrapper PY3 ?self2 w2")
        from ssl_wrapper_effect [OF sw] have nce: "rw \<noteq> Raise ConnectionError"
          and s3: "sock self3 \<noteq> None"
          and e3: "\<exists>ext. trace w3 = trace w2 @ ext \<and> open_handles ext = 0" by auto
        have e3': "\<exists>ext. trace w3 = trace w @ ext \<and> open_handles ext = live self3 - live self"
          using e2 e3 s3 by (auto simp: live_def)
        show ?thesis
        proof (cases rw)
          case (Return u)
          with True \<open>tls_requested (sslopts ?self2) = Return b\<close> assms c cc rc sw
          have "r = Return ()" "self' = self3" "w' = w3"
            by (simp_all add: reinit_def)
          then show ?thesis using e3' s3 by simp
        next
          case (Raise e)
          show ?thesis
          proof (cases "is_socket_error e")
            case False
            with Raise True \<open>tls_requested (sslopts ?self2) = Return b\<close> assms c cc rc sw
            have "r = Raise e" "self' = self3" "w' = w3"
              by (simp_all add: reinit_def)
            then show ?thesis using e3' nce Raise by simp
          next
            case t: True
            with Raise True \<open>tls_requested (sslopts ?self2) = Return b\<close> assms c cc rc sw
            have "raise_connection_error self3 w3 = (r, self', w')"
              by (simp add: reinit_def)
            from raise_connection_error_effect [OF this] e3' show ?thesis
              by (auto simp: live_def)
          qed
        qed
      qed
    qed
  qed
qed


lemma rx_take_length: "rx_take n rx = Some (Return data, rest) \<Longrightarrow> length data \<le> n"
  by (induction n rx rule: rx_take.induct) (auto split: if_splits)

lemma rx_take_raise: "rx_take n rx = Some (Raise e, rest) \<Longrightarrow> e = SocketError"
  by (induction n rx rule: rx_take.induct) (auto split: if_splits)

lemma sock_recv_raise:
  "sock_recv s k w = Some (Raise e, s', w') \<Longrightarrow> e = SocketError \<or> e = ValueError"
  by (auto simp: sock_recv_def Let_def split: if_splits option.splits dest: rx_take_raise)

lemma sock_recv_effect:
  "sock_recv s k w = Some (r, s', w') \<Longrightarrow>
     trace w' = trace w @ [Recv k] \<and> (\<forall>data. r = Return data \<longrightarrow> 0 \<le> k \<and> int (length data) \<le> k)"
  by (auto simp: sock_recv_def Let_def split: if_splits option.splits dest: rx_take_length)

lemma read_loop_effect:
  assumes "read_loop PY3 n acc self w = Some y"
  shows "(case y of (r, self', w') \<Rightarrow>
        (r = Raise ConnectionError \<longrightarrow> sock self' = None)
        \<and> (\<exists>ext. trace w' = trace w @ ext \<and> open_handles ext = live self' - live self)
        \<and> (\<forall>data. r = Return data \<longrightarrow> 0 \<le> n \<and> int (length data) = int (length (concat acc)) + n))"
proof (rule read_loop.raw_induct [where P = "\<lambda>PY3 n acc self w y. (case y of (r, self', w') \<Rightarrow>
        (r = Raise ConnectionError \<longrightarrow> sock self' = None)
        \<and> (\<exists>ext. trace w' = trace w @ ext \<and> open_handles ext = live self' - live self)
        \<and> (\<forall>data. r = Return data \<longrightarrow> 0 \<le> n \<and> int (length data) = int (length (concat acc)) + n))",
      OF _ assms], goal_cases)
  case (1 loop PY3 n acc self w y)
  show ?case
  proof (cases "n = 0")
    case True
    with 1(2) show ?thesis by auto
  next
    case False
    show ?thesis
    proof (cases "sock self")
      case None
      with False 1(2) show ?thesis by auto
    next
      case (Some s)
      with False 1(2) obtain r s' w1 where sr: "sock_recv s (min n 4096) w = Some (r, s', w1)"
        by (auto split: option.splits)
      note eff = sock_recv_effect [OF sr]
      let ?self1 = "self\<lparr>sock := Some s'\<rparr>"
      have l1: "live ?self1 = live self" using Some by (simp add: live_def)
      show ?thesis
      proof (cases r)
        case (Raise e)
        show ?thesis
        proof (cases "is_socket_error e")
          case True
          with Raise sr Some False 1(2) have "raise_connection_error ?self1 w1 = y"
            by simp
          then obtain r' self' w' where y: "y = (r', self', w')" and
            rce: "raise_connection_error ?self1 w1 = (r', self', w')"
            by (cases y) auto
          from raise_connection_error_effect [OF rce] eff l1 y show ?thesis
            by auto
        next
          case f: False
          with Raise sr Some False 1(2) have "y = (Raise e, ?self1, w1)"
            by simp
          moreover have "e \<noteq> ConnectionError" using sr Raise
            by (auto dest: sock_recv_raise)
          ultimately show ?thesis using eff l1 by auto
        qed
      next
        case (Return data)
        show ?thesis
        proof (cases "data = [] \<and> \<not> PY3")
          case True
          with Return sr Some False 1(2) have "raise_connection_error ?self1 w1 = y"
            by simp
          then obtain r' self' w' where y: "y = (r', self', w')" and
            rce: "raise_connection_error ?self1 w1 = (r', self', w')"
            by (cases y) auto
          from raise_connection_error_effect [OF rce] eff l1 y show ?thesis
            by auto
        next
          case f: False
          with Return sr Some False 1(2)
          have "loop PY3 (n - int (length data)) (acc @ [data]) ?self1 w1 = Some y"
            by auto
          from 1(1) [OF this] eff l1 Return show ?thesis
            by (auto split: prod.splits)
        qed
      qed
    qed
  qed
qed


lemma read_bytes_effect:
  assumes "read_bytes PY3 self n w = Some (r, self', w')"
  shows "(r = Raise ConnectionError \<longrightarrow> sock self' = None)
       \<and> (\<exists>ext. trace w' = trace w @ ext \<and> open_handles ext = live self' - live self)
       \<and> (\<forall>data. r = Return data \<longrightarrow> 0 \<le> n \<and> int (length data) = n)"
proof (cases "sock self = None")
  case False
  with assms have rl: "read_loop PY3 n [] self w = Some (r, self', w')"
    by (simp add: read_bytes_def)
  from read_loop_effect [OF rl] show ?thesis by auto
next
  case True
  obtain r1 self1 w1 where ri: "reinit PY3 self w = (r1, self1, w1)"
    by (cases "reinit PY3 self w")
  note e1 = reinit_effect [OF ri]
  show ?thesis
  proof (cases r1)
    case (Raise e)
    with True ri assms have "r = Raise e" "self' = self1" "w' = w1"
      by (simp_all add: read_bytes_def)
    with e1 Raise show ?thesis by auto
  next
    case (Return u)
    with True ri assms have rl: "read_loop PY3 n [] self1 w1 = Some (r, self', w')"
      by (simp add: read_bytes_def)
    from read_loop_effect [OF rl] e1 show ?thesis
      by auto
  qed
qed


lemma recv_effect:
  assumes "recv PY3 self rid w = Some (r, self', w')"
  shows "(r = Raise ConnectionError \<longrightarrow> sock self' = None)
       \<and> (\<exists>ext. trace w' = trace w @ ext \<and> open_handles ext = live self' - live self)"
proof -
  from assms obtain r1 self1 w1 where rb: "read_bytes PY3 self 4 w = Some (r1, self1, w1)"
    by (auto simp: recv_def split: option.splits)
  note e1 = read_bytes_effect [OF rb]
  show ?thesis
  proof (cases r1)
    case (Raise e)
    with rb assms have "r = Raise e" "self' = self1" "w' = w1"
      by (simp_all add: recv_def)
    with e1 Raise show ?thesis by auto
  next
    case (Return resp)
    show ?thesis
    proof (cases "unpack_be_i32 resp")
      case r2: (Raise e)
      then have "e = StructError"
        by (auto simp: unpack_be_i32_def Let_def split: list.splits)
      moreover from r2 Return rb assms have "r = Raise e" "self' = self1" "w' = w1"
        by (simp_all add: recv_def)
      ultimately show ?thesis using e1 by auto
    next
      case r2: (Return sz)
      with Return rb assms have "read_bytes PY3 self1 sz w1 = Some (r, self', w')"
        by (simp add: recv_def)
      from read_bytes_effect [OF this] e1 show ?thesis by auto
    qed
  qed
qed

lemma sendall_effect:
  "sendall s payload w = (r, w') \<Longrightarrow>
     trace w' = trace w @ [SendAll payload] \<and> (r = Raise SocketError \<or> (\<exists>s'. r = Return s'))"
  by (auto simp: sendall_def Let_def split: if_splits)

lemma send_effect:
  assumes "send PY3 self rid payload w = (r, self', w')"
  shows "(r = Raise ConnectionError \<longrightarrow> sock self' = None)
       \<and> (\<exists>ext. trace w' = trace w @ ext \<and> open_handles ext = live self' - live self)"
proof -
  obtain r1 self1 w1 where ri: "(if sock self = None then reinit PY3 self w else (Return (), self, w)) = (r1, self1, w1)"
    by (cases "if sock self = None then reinit PY3 self w else (Return (), self, w)")
  then have e1: "(r1 = Raise ConnectionError \<longrightarrow> sock self1 = None)
       \<and> (\<exists>ext. trace w1 = trace w @ ext \<and> open_handles ext = live self1 - live self)"
    by (auto split: if_splits dest: reinit_effect)
  show ?thesis
  proof (cases r1)
    case (Raise e)
    with ri assms have "r = Raise e" "self' = self1" "w' = w1"
      by (simp_all add: send_def)
    with e1 Raise show ?thesis by auto
  next
    case (Return u)
    show ?thesis
    proof (cases "sock self1")
      case None
      with Return ri assms have "r = Raise AttributeError" "self' = self1" "w' = w1"
        by (simp_all add: send_def)
      with e1 show ?thesis by auto
    next
      case (Some s)
      obtain r2 w2 where sa: "sendall s payload w1 = (r2, w2)"
        by (cases "sendall s payload w1")
      from sendall_effect [OF sa] show ?thesis
      proof (elim conjE disjE exE)
        assume t: "trace w2 = trace w1 @ [SendAll payload]" and "r2 = Raise SocketError"
        with Some Return ri assms sa have "raise_connection_error self1 w2 = (r, self', w')"
          by (simp add: send_def)
        from raise_connection_error_effect [OF this] t e1 show ?thesis by auto
      next
        fix s' assume t: "trace w2 = trace w1 @ [SendAll payload]" and "r2 = Return s'"
        with Some Return ri assms sa have "r = Return ()" "self' = self1\<lparr>sock := Some s'\<rparr>" "w' = w2"
          by (simp_all add: send_def)
        with t e1 Some show ?thesis by (auto simp: live_def)
      qed
    qed
  qed
qed

lemma open_handles_pos_dial: "0 < open_handles ext \<Longrightarrow> list_ex is_dial_ok ext"
proof (induction ext)
  case Nil
  then show ?case by simp
next
  case (Cons c cs)
  then show ?case by (cases c) (auto split: if_splits)
qed


lemma drop_bytes_step:
  "0 < j \<Longrightarrow> j \<le> n \<Longrightarrow> j < length c \<Longrightarrow> drop_bytes (n - j) (drop j c # cs) = drop_bytes n (c # cs)"
  by (auto simp: add.commute)

lemma concat_drop_bytes: "concat (drop_bytes n chunks) = drop n (concat chunks)"
  by (induction n chunks rule: drop_bytes.induct) auto

lemma drop_bytes_nonempty: "[] \<notin> set chunks \<Longrightarrow> [] \<notin> set (drop_bytes n chunks)"
  by (induction n chunks rule: drop_bytes.induct) auto

lemma read_loop_data:
  assumes "0 \<le> n" "nat n \<le> length (concat chunks)" "[] \<notin> set chunks"
    "sock self = Some s" "pending s = map Data chunks @ rest"
  shows "\<exists>calls. read_loop PY3 n acc self w =
           Some (Return (concat acc @ take (nat n) (concat chunks)),
                 self\<lparr>sock := Some (s\<lparr>pending := map Data (drop_bytes (nat n) chunks) @ rest\<rparr>)\<rparr>,
                 w\<lparr>trace := trace w @ calls\<rparr>)
         \<and> list_all is_recv calls"
  using assms
proof (induction "nat n" arbitrary: n chunks acc self s w rule: less_induct)
  case less
  show ?case
  proof (cases "n = 0")
    case True
    have "drop_bytes 0 chunks = chunks" by (cases chunks) auto
    with True less.prems have "read_loop PY3 n acc self w =
           Some (Return (concat acc @ take (nat n) (concat chunks)),
                 self\<lparr>sock := Some (s\<lparr>pending := map Data (drop_bytes (nat n) chunks) @ rest\<rparr>)\<rparr>,
                 w\<lparr>trace := trace w @ []\<rparr>)"
      by (subst read_loop.simps) simp
    then show ?thesis by (intro exI [of _ "[]"]) simp
  next
    case False
    with less.prems have npos: "0 < n" by simp
    with less.prems obtain c cs where chunks: "chunks = c # cs" and c: "c \<noteq> []"
      by (cases chunks) auto
    define k where "k = min n 4096"
    define j where "j = nat k"
    have j: "0 < j" "j \<le> nat n" "int j = k" using npos by (auto simp: j_def k_def)
    define data where "data = take j c"
    define chunks1 where "chunks1 = (if length c \<le> j then cs else drop j c # cs)"
    define s1 where "s1 = s\<lparr>pending := map Data chunks1 @ rest\<rparr>"
    define w1 where "w1 = w\<lparr>trace := trace w @ [Recv k]\<rparr>"
    define n1 where "n1 = n - int (length data)"
    have dne: "data \<noteq> []" using c j by (simp add: data_def)
    have dlen: "length data = min (length c) j" by (simp add: data_def)
    have sr: "sock_recv s k w = Some (Return data, s1, w1)"
      using less.prems chunks c j
      by (simp add: sock_recv_def j_def [symmetric] data_def s1_def w1_def chunks1_def)
    have step: "read_loop PY3 n acc self w = read_loop PY3 n1 (acc @ [data]) (self\<lparr>sock := Some s1\<rparr>) w1"
      using False less.prems(4) sr dne
      by (subst read_loop.simps) (simp add: k_def [symmetric] n1_def)
    have n1: "0 \<le> n1" "nat n1 < nat n" "nat n1 = nat n - length data"
      using j dne dlen by (auto simp: n1_def)
    have cc: "concat chunks1 = drop (length data) (concat chunks)"
      by (simp add: chunks1_def chunks dlen)
    have "\<exists>calls. read_loop PY3 n1 (acc @ [data]) (self\<lparr>sock := Some s1\<rparr>) w1 =
           Some (Return (concat (acc @ [data]) @ take (nat n1) (concat chunks1)),
                 self\<lparr>sock := Some s1\<rparr>\<lparr>sock := Some (s1\<lparr>pending := map Data (drop_bytes (nat n1) chunks1) @ rest\<rparr>)\<rparr>,
                 w1\<lparr>trace := trace w1 @ calls\<rparr>)
         \<and> list_all is_recv calls"
    proof (rule less.hyps)
      show "nat n1 < nat n" by (rule n1)
      show "0 \<le> n1" by (rule n1)
      show "nat n1 \<le> length (concat chunks1)"
        using less.prems(2) n1 by (simp add: cc diff_le_mono)
      show "[] \<notin> set chunks1"
        using less.prems(3) by (auto simp: chunks1_def chunks)
      show "sock (self\<lparr>sock := Some s1\<rparr>) = Some s1" by simp
      show "pending s1 = map Data chunks1 @ rest" by (simp add: s1_def)
    qed
    then obtain calls where
      rl: "read_loop PY3 n1 (acc @ [data]) (self\<lparr>sock := Some s1\<rparr>) w1 =
           Some (Return (concat (acc @ [data]) @ take (nat n1) (concat chunks1)),
                 self\<lparr>sock := Some s1\<rparr>\<lparr>sock := Some (s1\<lparr>pending := map Data (drop_bytes (nat n1) chunks1) @ rest\<rparr>)\<rparr>,
                 w1\<lparr>trace := trace w1 @ calls\<rparr>)"
      and ca: "list_all is_recv calls" by blast
    have d: "data = take (length data) (concat chunks)"
      by (cases "length c \<le> j") (simp_all add: data_def chunks min_def)
    have "length data \<le> nat n" using j dlen by simp
    then have "nat n = length data + nat n1" using n1 by simp
    then have "take (nat n) (concat chunks) = take (length data + nat n1) (concat chunks)"
      by (rule arg_cong)
    also have "\<dots> = take (length data) (concat chunks) @ take (nat n1) (drop (length data) (concat chunks))"
      by (rule take_add)
    finally have bytes: "concat (acc @ [data]) @ take (nat n1) (concat chunks1) = concat acc @ take (nat n) (concat chunks)"
      using d cc by simp
    have db: "drop_bytes (nat n1) chunks1 = drop_bytes (nat n) chunks"
    proof (cases "length c \<le> j")
      case True
      then have "length data = length c" by (simp add: dlen)
      with True n1 j show ?thesis by (auto simp: chunks1_def chunks)
    next
      case False
      then have ld: "length data = j" by (simp add: dlen)
      have "drop_bytes (nat n - j) (drop j c # cs) = drop_bytes (nat n) (c # cs)"
        using j False by (intro drop_bytes_step) auto
      moreover have "chunks1 = drop j c # cs" using False by (simp add: chunks1_def)
      moreover have "nat n1 = nat n - j" using n1 ld by simp
      ultimately show ?thesis by (simp only: chunks)
    qed
    have "read_loop PY3 n acc self w =
           Some (Return (concat acc @ take (nat n) (concat chunks)),
                 self\<lparr>sock := Some (s\<lparr>pending := map Data (drop_bytes (nat n) chunks) @ rest\<rparr>)\<rparr>,
                 w\<lparr>trace := trace w @ (Recv k # calls)\<rparr>)"
      using step rl bytes db by (simp add: s1_def w1_def)
    with ca show ?thesis by (intro exI [of _ "Recv k # calls"]) simp
  qed
qed

subsection \<open>Framing: \<^verbatim>\<open>recv\<close> and \<^verbatim>\<open>_read_bytes\<close>\<close>

lemma unpack_be_i32_length: "unpack_be_i32 hdr = Return N \<Longrightarrow> length hdr = 4"
  by (auto simp: unpack_be_i32_def split: list.splits)

text \<open>
  The decoding of the header is the signed reading of the four bytes put together,
  first byte highest, and lies in the range of a 32-bit integer.
\<close>

lemma uint_byte_bounds: "0 \<le> uint (b :: byte) \<and> uint b < 256"
  using uint_bounded [of b] by simp

lemma unpack_be_i32_range:
  "unpack_be_i32 hdr = Return N \<Longrightarrow> - (2 ^ 31) \<le> N \<and> N < 2 ^ 31"
proof -
  assume a: "unpack_be_i32 hdr = Return N"
  then obtain b0 b1 b2 b3 where hdr: "hdr = [b0, b1, b2, b3]"
    by (auto simp: unpack_be_i32_def split: list.splits)
  define u where "u = uint b0 * 2 ^ 24 + uint b1 * 2 ^ 16 + uint b2 * 2 ^ 8 + uint b3"
  have "0 \<le> u \<and> u < 2 ^ 32"
    using uint_byte_bounds [of b0] uint_byte_bounds [of b1] uint_byte_bounds [of b2]
      uint_byte_bounds [of b3]
    by (simp add: u_def)
  moreover have "unpack_be_i32 hdr = Return (if 2 ^ 31 \<le> u then u - 2 ^ 32 else u)"
    unfolding unpack_be_i32_def hdr u_def Let_def by simp
  with a have "N = (if 2 ^ 31 \<le> u then u - 2 ^ 32 else u)" by simp
  ultimately show ?thesis by (simp split: if_splits)
qed

lemma unpack_be_i32_word:
  "unpack_be_i32 [b0, b1, b2, b3] = Return (sint (word_rcat [b0, b1, b2, b3] :: 32 word))"
proof -
  define u where "u = uint b0 * 2 ^ 24 + uint b1 * 2 ^ 16 + uint b2 * 2 ^ 8 + uint b3"
  have b: "0 \<le> u \<and> u < 2 ^ 32"
    using uint_byte_bounds [of b0] uint_byte_bounds [of b1] uint_byte_bounds [of b2]
      uint_byte_bounds [of b3]
    by (simp add: u_def)
  have r: "(word_rcat [b0, b1, b2, b3] :: 32 word) = word_of_int u"
    by (simp add: word_rcat_def u_def algebra_simps)
  have "sint (word_of_int u :: 32 word) = (if 2 ^ 31 \<le> u then u - 2 ^ 32 else u)"
  proof (cases "2 ^ 31 \<le> u")
    case True
    have "u + 2 ^ 31 = u - 2 ^ 31 + 2 ^ 32" by simp
    then have "(u + 2 ^ 31) mod 2 ^ 32 = (u - 2 ^ 31 + 2 ^ 32) mod 2 ^ 32" by (rule arg_cong)
    also have "\<dots> = (u - 2 ^ 31) mod 2 ^ 32" by (rule mod_add_self2)
    also have "\<dots> = u - 2 ^ 31" using True b by (intro mod_pos_pos_trivial) auto
    finally show ?thesis
      using True b by (simp add: sint_uint signed_take_bit_eq_take_bit_shift take_bit_int_eq_self
          unsigned_of_int take_bit_eq_mod)
  next
    case False
    have "(u + 2 ^ 31) mod 2 ^ 32 = u + 2 ^ 31" using False b by (intro mod_pos_pos_trivial) auto
    then show ?thesis
      using False b by (simp add: sint_uint signed_take_bit_eq_take_bit_shift take_bit_int_eq_self
          unsigned_of_int take_bit_eq_mod)
  qed
  then show ?thesis
    by (simp add: unpack_be_i32_def r u_def Let_def)
qed

lemma read_bytes_connected:
  "sock self = Some s \<Longrightarrow> read_bytes PY3 self n w = read_loop PY3 n [] self w"
  by (simp add: read_bytes_def)

text \<open>
  The two reads of \<^verbatim>\<open>recv\<close>, for a header that \<^verbatim>\<open>struct.unpack\<close> decodes to a
  count that is not negative.
\<close>

lemma recv_payload_after_header:
  assumes "sock self = Some s" and "pending s = map Data chunks @ rest" and "[] \<notin> set chunks"
    and "concat chunks = hdr @ payload @ extra"
    and "unpack_be_i32 hdr = Return N" and "0 \<le> N" and "int (length payload) = N"
  shows "\<exists>calls chunks'.
           recv PY3 self request_id w =
             Some (Return payload,
                   self\<lparr>sock := Some (s\<lparr>pending := map Data chunks' @ rest\<rparr>)\<rparr>,
                   w\<lparr>trace := trace w @ calls\<rparr>)
           \<and> concat chunks' = extra \<and> list_all is_recv calls"
proof -
  have h4: "length hdr = 4" using assms(5) by (rule unpack_be_i32_length)
  have "\<exists>calls. read_loop PY3 4 [] self w =
           Some (Return (concat [] @ take (nat 4) (concat chunks)),
                 self\<lparr>sock := Some (s\<lparr>pending := map Data (drop_bytes (nat 4) chunks) @ rest\<rparr>)\<rparr>,
                 w\<lparr>trace := trace w @ calls\<rparr>)
         \<and> list_all is_recv calls"
    using assms(1,2,3,4) h4 by (intro read_loop_data) auto
  then obtain calls1 where
    r1: "read_loop PY3 4 [] self w =
           Some (Return hdr,
                 self\<lparr>sock := Some (s\<lparr>pending := map Data (drop_bytes 4 chunks) @ rest\<rparr>)\<rparr>,
                 w\<lparr>trace := trace w @ calls1\<rparr>)"
    and c1: "list_all is_recv calls1"
    using assms(4) h4 by auto
  let ?chunks2 = "drop_bytes 4 chunks"
  let ?s1 = "s\<lparr>pending := map Data ?chunks2 @ rest\<rparr>"
  let ?self1 = "self\<lparr>sock := Some ?s1\<rparr>"
  let ?w1 = "w\<lparr>trace := trace w @ calls1\<rparr>"
  have cc2: "concat ?chunks2 = payload @ extra"
    using assms(4) h4 by (simp add: concat_drop_bytes)
  have "\<exists>calls. read_loop PY3 N [] ?self1 ?w1 =
           Some (Return (concat [] @ take (nat N) (concat ?chunks2)),
                 ?self1\<lparr>sock := Some (?s1\<lparr>pending := map Data (drop_bytes (nat N) ?chunks2) @ rest\<rparr>)\<rparr>,
                 ?w1\<lparr>trace := trace ?w1 @ calls\<rparr>)
         \<and> list_all is_recv calls"
    using assms(3,6,7) cc2 by (intro read_loop_data) (auto simp: drop_bytes_nonempty)
  then obtain calls2 where
    r2: "read_loop PY3 N [] ?self1 ?w1 =
           Some (Return payload,
                 self\<lparr>sock := Some (s\<lparr>pending := map Data (drop_bytes (nat N) ?chunks2) @ rest\<rparr>)\<rparr>,
                 w\<lparr>trace := trace w @ calls1 @ calls2\<rparr>)"
    and c2: "list_all is_recv calls2"
    using assms(7) cc2 by auto
  have "concat (drop_bytes (nat N) ?chunks2) = extra"
    using assms(7) cc2 by (simp add: concat_drop_bytes)
  moreover have "recv PY3 self request_id w =
           Some (Return payload,
                 self\<lparr>sock := Some (s\<lparr>pending := map Data (drop_bytes (nat N) ?chunks2) @ rest\<rparr>)\<rparr>,
                 w\<lparr>trace := trace w @ (calls1 @ calls2)\<rparr>)"
    using r1 r2 assms(1,5) by (simp add: recv_def read_bytes_connected)
  ultimately show ?thesis using c1 c2
    by (intro exI [of _ "calls1 @ calls2"] exI [of _ "drop_bytes (nat N) ?chunks2"]) simp
qed

text \<open>
  C1. On a connected object whose peer delivers, in segments of any sizes, four header
  bytes followed by \<open>N\<close> payload bytes and by whatever comes next, where \<open>N \<ge> 0\<close> is
  the header read as a big-endian signed 32-bit integer (the four bytes put together,
  first byte highest, in two's complement), \<^verbatim>\<open>recv\<close> returns exactly the \<open>N\<close>
  payload bytes: it makes only reads, takes the four header bytes and the payload off the
  stream and leaves what follows them pending. This holds under both Python versions.
\<close>

theorem recv_returns_exact_payload:
  assumes "sock self = Some s" and "pending s = map Data chunks @ rest" and "[] \<notin> set chunks"
    and "concat chunks = [b0, b1, b2, b3] @ payload @ extra"
    and "N = sint (word_rcat [b0, b1, b2, b3] :: 32 word)"
    and "0 \<le> N" and "int (length payload) = N"
  shows "\<exists>calls chunks'.
           recv PY3 self request_id w =
             Some (Return payload,
                   self\<lparr>sock := Some (s\<lparr>pending := map Data chunks' @ rest\<rparr>)\<rparr>,
                   w\<lparr>trace := trace w @ calls\<rparr>)
           \<and> concat chunks' = extra \<and> list_all is_recv calls"
proof -
  have "unpack_be_i32 [b0, b1, b2, b3] = Return N"
    using assms(5) by (simp only: unpack_be_i32_word)
  with assms(1,2,3,4) show ?thesis
    using assms(6,7) by (rule recv_payload_after_header)
qed

theorem recv_returns_exact_payload_witness:
  "\<exists>calls chunks'.
     recv False
       (client (Some (peer [Data [0, 0, 1], Data (2 # replicate 100 9), Data (replicate 158 9), Data [1], Eof])) PyNone)
       1 (fresh_network []) =
       Some (Return (replicate 258 9),
             client (Some (peer (map Data chunks' @ [Eof]))) PyNone,
             \<lparr>dials = [], trace = calls\<rparr>)
     \<and> concat chunks' = [1] \<and> list_all is_recv calls"
proof -
  have n: "(258 :: int) = sint (word_rcat [0, 0, 1, 2 :: byte] :: 32 word)"
    by (simp add: word_rcat_def)
  have r: "replicate 100 (9 :: byte) @ replicate 158 9 = replicate 258 9"
    by (simp add: replicate_add [symmetric])
  show ?thesis
    using recv_returns_exact_payload
      [of "client (Some (peer [Data [0, 0, 1], Data (2 # replicate 100 9), Data (replicate 158 9), Data [1], Eof])) PyNone"
          "peer [Data [0, 0, 1], Data (2 # replicate 100 9), Data (replicate 158 9), Data [1], Eof]"
          "[[0, 0, 1], 2 # replicate 100 9, replicate 158 9, [1]]" "[Eof]"
          0 0 1 2 "replicate 258 9" "[1]" 258 False 1 "fresh_network []"] n r
    by (simp add: client_def peer_def fresh_network_def)
qed

text \<open>
  C10. When the header decodes to a negative \<open>N\<close>, \<^verbatim>\<open>recv\<close> returns no payload and
  raises no \<^verbatim>\<open>ConnectionError\<close>: the loop is entered, the read of
  \<^verbatim>\<open>min(N, 4096) = N\<close> bytes raises \<^verbatim>\<open>ValueError\<close>, which the handler does not
  catch. The calls made are reads only, the last one for \<open>N\<close> bytes; no shutdown and no
  close happens and the object keeps its socket.
\<close>

theorem recv_negative_size_leaves_socket_open:
  assumes "sock self = Some s" and "pending s = map Data chunks @ rest" and "[] \<notin> set chunks"
    and "concat chunks = hdr @ extra"
    and "unpack_be_i32 hdr = Return N" and "N < 0"
  shows "\<exists>calls chunks'.
           recv PY3 self request_id w =
             Some (Raise ValueError,
                   self\<lparr>sock := Some (s\<lparr>pending := map Data chunks' @ rest\<rparr>)\<rparr>,
                   w\<lparr>trace := trace w @ calls @ [Recv N]\<rparr>)
           \<and> concat chunks' = extra \<and> list_all is_recv calls"
proof -
  have h4: "length hdr = 4" using assms(5) by (rule unpack_be_i32_length)
  have "\<exists>calls. read_loop PY3 4 [] self w =
           Some (Return (concat [] @ take (nat 4) (concat chunks)),
                 self\<lparr>sock := Some (s\<lparr>pending := map Data (drop_bytes (nat 4) chunks) @ rest\<rparr>)\<rparr>,
                 w\<lparr>trace := trace w @ calls\<rparr>)
         \<and> list_all is_recv calls"
    using assms(1,2,3,4) h4 by (intro read_loop_data) auto
  then obtain calls1 where
    r1: "read_loop PY3 4 [] self w =
           Some (Return hdr,
                 self\<lparr>sock := Some (s\<lparr>pending := map Data (drop_bytes 4 chunks) @ rest\<rparr>)\<rparr>,
                 w\<lparr>trace := trace w @ calls1\<rparr>)"
    and c1: "list_all is_recv calls1"
    using assms(4) h4 by auto
  let ?s1 = "s\<lparr>pending := map Data (drop_bytes 4 chunks) @ rest\<rparr>"
  let ?self1 = "self\<lparr>sock := Some ?s1\<rparr>"
  let ?w1 = "w\<lparr>trace := trace w @ calls1\<rparr>"
  have "read_loop PY3 N [] ?self1 ?w1 =
          Some (Raise ValueError, ?self1, w\<lparr>trace := trace w @ calls1 @ [Recv N]\<rparr>)"
    using assms(6) by (subst read_loop.simps) (simp add: sock_recv_def)
  then have "recv PY3 self request_id w =
          Some (Raise ValueError, ?self1, w\<lparr>trace := trace w @ calls1 @ [Recv N]\<rparr>)"
    using r1 assms(1,5) by (simp add: recv_def read_bytes_connected)
  moreover have "concat (drop_bytes 4 chunks) = extra"
    using assms(4) h4 by (simp add: concat_drop_bytes)
  ultimately show ?thesis using c1 by blast
qed


theorem recv_negative_size_leaves_socket_open_witness:
  "\<exists>calls chunks'.
     recv True (client (Some (peer [Data [255, 255], Data [255, 254, 7]])) PyNone) 1 (fresh_network []) =
       Some (Raise ValueError,
             client (Some (peer (map Data chunks' @ []))) PyNone,
             \<lparr>dials = [], trace = calls @ [Recv (- 2)]\<rparr>)
     \<and> concat chunks' = [7] \<and> list_all is_recv calls"
  using recv_negative_size_leaves_socket_open
    [of "client (Some (peer [Data [255, 255], Data [255, 254, 7]])) PyNone"
        "peer [Data [255, 255], Data [255, 254, 7]]"
        "[[255, 255], [255, 254, 7]]" "[]" "[255, 255, 255, 254]" "[7]" "- 2"
        True 1 "fresh_network []"]
  by (simp add: client_def peer_def fresh_network_def unpack_be_i32_def)

lemma sock_recv_eof:
  "pending s = Eof # rest \<Longrightarrow> 0 \<le> k \<Longrightarrow>
     sock_recv s k w = Some (Return [], s, w\<lparr>trace := trace w @ [Recv k]\<rparr>)"
  by (simp add: sock_recv_def Let_def)

lemma read_loop_py3_eof_diverges:
  assumes "sock self = Some s" and "pending s = Eof # rest" and "0 < n"
  shows "read_loop True n acc self w = None"
proof (rule ccontr)
  assume "read_loop True n acc self w \<noteq> None"
  then obtain y where y: "read_loop True n acc self w = Some y" by auto
  have "\<not> (True \<and> 0 < n \<and> (\<exists>s rest. sock self = Some s \<and> pending s = Eof # rest))"
  proof (rule read_loop.raw_induct [where P = "\<lambda>PY3 n acc self w y.
      \<not> (PY3 \<and> 0 < n \<and> (\<exists>s rest. sock self = Some s \<and> pending s = Eof # rest))", OF _ y], goal_cases)
    case (1 loop PY3 n acc self w y)
    show ?case
    proof
      assume a: "PY3 \<and> 0 < n \<and> (\<exists>s rest. sock self = Some s \<and> pending s = Eof # rest)"
      then obtain s rest where s: "sock self = Some s" "pending s = Eof # rest" by blast
      from a s have sr: "sock_recv s (min n 4096) w =
          Some (Return [], s, w\<lparr>trace := trace w @ [Recv (min n 4096)]\<rparr>)"
        by (intro sock_recv_eof) auto
      from 1(2) a s sr
      have "loop PY3 n (acc @ [[]]) (self\<lparr>sock := Some s\<rparr>)
              (w\<lparr>trace := trace w @ [Recv (min n 4096)]\<rparr>) = Some y"
        by simp
      from 1(1) [OF this] a s show False by simp
    qed
  qed
  with assms show False by blast
qed

lemma read_loop_py2_eof_raises:
  assumes "sock self = Some s" and "pending s = Eof # rest" and "0 < n"
  shows "read_loop False n acc self w =
           Some (Raise ConnectionError, self\<lparr>sock := None\<rparr>,
                 w\<lparr>trace := trace w @ [Recv (min n 4096), Shutdown, Close]\<rparr>)"
proof -
  from assms have "sock_recv s (min n 4096) w =
      Some (Return [], s, w\<lparr>trace := trace w @ [Recv (min n 4096)]\<rparr>)"
    by (intro sock_recv_eof) auto
  with assms show ?thesis
    by (subst read_loop.simps) (simp add: raise_connection_error_def close_def)
qed

text \<open>
  Empty reads. Under Python 2 an empty read, at any point of the loop, closes the socket
  and raises \<^verbatim>\<open>ConnectionError\<close>. Under both Python versions a payload that
  \<^verbatim>\<open>recv\<close> returns has exactly the length its header announced, so no empty or
  short payload is ever returned as a success.
\<close>

lemma read_loop_py2_empty_read:
  assumes "sock self = Some s" and "n \<noteq> 0"
    and "sock_recv s (min n 4096) w = Some (Return [], s', w')"
  shows "read_loop False n acc self w =
           Some (Raise ConnectionError, self\<lparr>sock := None\<rparr>,
                 w'\<lparr>trace := trace w' @ [Shutdown, Close]\<rparr>)"
  using assms
  by (subst read_loop.simps) (simp add: raise_connection_error_def close_def)

lemma recv_never_short:
  assumes "recv PY3 self request_id w = Some (Return data, self', w')"
  shows "\<exists>hdr self1 w1.
           read_bytes PY3 self 4 w = Some (Return hdr, self1, w1)
           \<and> unpack_be_i32 hdr = Return (int (length data))"
proof -
  from assms obtain r1 self1 w1 where rb: "read_bytes PY3 self 4 w = Some (r1, self1, w1)"
    by (auto simp: recv_def split: option.splits)
  with assms obtain hdr where r1: "r1 = Return hdr"
    by (cases r1) (auto simp: recv_def)
  with rb assms obtain N where u: "unpack_be_i32 hdr = Return N"
    and rb2: "read_bytes PY3 self1 N w1 = Some (Return data, self', w')"
    by (cases "unpack_be_i32 hdr") (auto simp: recv_def)
  from read_bytes_effect [OF rb2] have "int (length data) = N" by simp
  with rb r1 u show ?thesis by auto
qed

text \<open>
  C3, at the input where the code departs from it. The peer sends a header announcing 5
  bytes and closes. Under Python 3 the empty read is not recognised, the loop reads the
  closed stream again and again and \<^verbatim>\<open>recv\<close> never returns; under Python 2 the same
  input closes the socket and raises \<^verbatim>\<open>ConnectionError\<close>.
\<close>

theorem recv_py3_spins_on_closed_peer:
  "recv True (client (Some (peer [Data [0, 0, 0, 5], Eof])) PyNone) 1 (fresh_network []) = None
   \<and> recv False (client (Some (peer [Data [0, 0, 0, 5], Eof])) PyNone) 1 (fresh_network []) =
       Some (Raise ConnectionError, client None PyNone,
             \<lparr>dials = [], trace = [Recv 4, Recv 5, Shutdown, Close]\<rparr>)"
proof -
  let ?c = "client (Some (peer [Data [0, 0, 0, 5], Eof])) PyNone"
  let ?c1 = "client (Some (peer [Eof])) PyNone"
  let ?w1 = "\<lparr>dials = [], trace = [Recv 4]\<rparr>"
  have hdr: "read_loop PY3 4 [] ?c (fresh_network []) = Some (Return [0, 0, 0, 5], ?c1, ?w1)" for PY3
    by (subst read_loop.simps, simp add: client_def peer_def fresh_network_def sock_recv_def,
        subst read_loop.simps, simp)
  have "read_loop True 5 [] ?c1 ?w1 = None"
    by (rule read_loop_py3_eof_diverges [where s = "peer [Eof]" and rest = "[]"])
       (simp_all add: client_def peer_def)
  moreover have "read_loop False 5 [] ?c1 ?w1 =
      Some (Raise ConnectionError, ?c1\<lparr>sock := None\<rparr>, ?w1\<lparr>trace := trace ?w1 @ [Recv (min 5 4096), Shutdown, Close]\<rparr>)"
    by (rule read_loop_py2_eof_raises [where s = "peer [Eof]" and rest = "[]"])
       (simp_all add: client_def peer_def)
  ultimately show ?thesis using hdr
    by (simp add: recv_def read_bytes_def unpack_be_i32_def client_def peer_def fresh_network_def)
qed


subsection \<open>Failure handling\<close>

text \<open>
  C2. Whenever \<^verbatim>\<open>reinit\<close>, \<^verbatim>\<open>send\<close> or \<^verbatim>\<open>recv\<close> raises
  \<^verbatim>\<open>ConnectionError\<close>, the object holds no socket when the caller sees the error
  (\<^verbatim>\<open>_sock\<close> is \<^verbatim>\<open>None\<close>). Moreover every socket that was opened has been
  closed by then: if before the call the only open handle was the one the object held, no
  handle is open after it.
\<close>

theorem connection_error_leaves_disconnected:
  "(reinit PY3 self w = (Raise ConnectionError, self', w') \<longrightarrow>
      sock self' = None \<and> (open_handles (trace w) = live self \<longrightarrow> open_handles (trace w') = 0))
   \<and> (send PY3 self request_id payload w = (Raise ConnectionError, self', w') \<longrightarrow>
      sock self' = None \<and> (open_handles (trace w) = live self \<longrightarrow> open_handles (trace w') = 0))
   \<and> (recv PY3 self request_id w = Some (Raise ConnectionError, self', w') \<longrightarrow>
      sock self' = None \<and> (open_handles (trace w) = live self \<longrightarrow> open_handles (trace w') = 0))"
proof -
  have final: "sock self' = None \<and> (open_handles (trace w) = live self \<longrightarrow> open_handles (trace w') = 0)"
    if "sock self' = None" and "\<exists>ext. trace w' = trace w @ ext \<and> open_handles ext = live self' - live self"
    using that by (auto simp: live_def)
  show ?thesis
  proof (intro conjI impI)
    assume "reinit PY3 self w = (Raise ConnectionError, self', w')"
    from reinit_effect [OF this]
    show "sock self' = None" "open_handles (trace w) = live self \<Longrightarrow> open_handles (trace w') = 0"
      using final by auto
  next
    assume "send PY3 self request_id payload w = (Raise ConnectionError, self', w')"
    from send_effect [OF this]
    show "sock self' = None" "open_handles (trace w) = live self \<Longrightarrow> open_handles (trace w') = 0"
      using final by auto
  next
    assume "recv PY3 self request_id w = Some (Raise ConnectionError, self', w')"
    from recv_effect [OF this]
    show "sock self' = None" "open_handles (trace w) = live self \<Longrightarrow> open_handles (trace w') = 0"
      using final by auto
  qed
qed

theorem connection_error_leaves_disconnected_witness:
  "reinit False (client (Some (peer [])) PyNone)
      \<lparr>dials = [Refused], trace = [Connect ''broker'' 9092 (Some 120) True]\<rparr> =
     (Raise ConnectionError, client None PyNone,
      \<lparr>dials = [], trace = [Connect ''broker'' 9092 (Some 120) True, Shutdown, Close,
                             Connect ''broker'' 9092 (Some 120) False]\<rparr>)
   \<and> send True (client (Some ((peer [])\<lparr>send_fails := True\<rparr>)) PyNone) 7 [1, 2]
      \<lparr>dials = [], trace = [Connect ''broker'' 9092 (Some 120) True]\<rparr> =
     (Raise ConnectionError, client None PyNone,
      \<lparr>dials = [], trace = [Connect ''broker'' 9092 (Some 120) True, SendAll [1, 2], Shutdown, Close]\<rparr>)
   \<and> recv True (client (Some (peer [Data [0, 0], RecvError])) PyNone) 7
      \<lparr>dials = [], trace = [Connect ''broker'' 9092 (Some 120) True]\<rparr> =
     Some (Raise ConnectionError, client None PyNone,
      \<lparr>dials = [], trace = [Connect ''broker'' 9092 (Some 120) True, Recv 4, Recv 2, Shutdown, Close]\<rparr>)
   \<and> sock (client None PyNone) = None
   \<and> open_handles [Connect ''broker'' 9092 (Some 120) True, Shutdown, Close,
                     Connect ''broker'' 9092 (Some 120) False] = 0
   \<and> open_handles [Connect ''broker'' 9092 (Some 120) True, SendAll [1, 2], Shutdown, Close] = 0
   \<and> open_handles [Connect ''broker'' 9092 (Some 120) True, Recv 4, Recv 2, Shutdown, Close] = 0"
proof -
  let ?w = "\<lparr>dials = [], trace = [Connect ''broker'' 9092 (Some 120) True]\<rparr>"
  have h1: "reinit False (client (Some (peer [])) PyNone)
      \<lparr>dials = [Refused], trace = [Connect ''broker'' 9092 (Some 120) True]\<rparr> =
     (Raise ConnectionError, client None PyNone,
      \<lparr>dials = [], trace = [Connect ''broker'' 9092 (Some 120) True, Shutdown, Close,
                             Connect ''broker'' 9092 (Some 120) False]\<rparr>)"
    by (simp add: reinit_def close_def create_connection_def raise_connection_error_def
        client_def peer_def)
  have h2: "send True (client (Some ((peer [])\<lparr>send_fails := True\<rparr>)) PyNone) 7 [1, 2] ?w =
     (Raise ConnectionError, client None PyNone,
      \<lparr>dials = [], trace = [Connect ''broker'' 9092 (Some 120) True, SendAll [1, 2], Shutdown, Close]\<rparr>)"
    by (simp add: send_def sendall_def close_def raise_connection_error_def client_def peer_def)
  have h3: "recv True (client (Some (peer [Data [0, 0], RecvError])) PyNone) 7 ?w =
     Some (Raise ConnectionError, client None PyNone,
      \<lparr>dials = [], trace = [Connect ''broker'' 9092 (Some 120) True, Recv 4, Recv 2, Shutdown, Close]\<rparr>)"
    by (simp add: recv_def read_bytes_def client_def peer_def,
        subst read_loop.simps, simp add: sock_recv_def,
        subst read_loop.simps, simp add: sock_recv_def raise_connection_error_def close_def)
  have b1: "open_handles (trace \<lparr>dials = [Refused], trace = [Connect ''broker'' 9092 (Some 120) True]\<rparr>)
      = live (client (Some (peer [])) PyNone)"
    and b2: "open_handles (trace ?w) = live (client (Some ((peer [])\<lparr>send_fails := True\<rparr>)) PyNone)"
    and b3: "open_handles (trace ?w) = live (client (Some (peer [Data [0, 0], RecvError])) PyNone)"
    by (simp_all add: live_def client_def)
  from connection_error_leaves_disconnected
    [of False "client (Some (peer [])) PyNone"
       "\<lparr>dials = [Refused], trace = [Connect ''broker'' 9092 (Some 120) True]\<rparr>"
       "client None PyNone"
       "\<lparr>dials = [], trace = [Connect ''broker'' 9092 (Some 120) True, Shutdown, Close,
                             Connect ''broker'' 9092 (Some 120) False]\<rparr>"] h1 b1
  have c1: "sock (client None PyNone) = None"
    "open_handles [Connect ''broker'' 9092 (Some 120) True, Shutdown, Close,
                     Connect ''broker'' 9092 (Some 120) False] = 0"
    by simp_all
  from connection_error_leaves_disconnected
    [of True "client (Some ((peer [])\<lparr>send_fails := True\<rparr>)) PyNone" ?w "client None PyNone"
       "\<lparr>dials = [], trace = [Connect ''broker'' 9092 (Some 120) True, SendAll [1, 2], Shutdown, Close]\<rparr>"
       7 "[1, 2]"]
    h2 b2
  have c2: "open_handles [Connect ''broker'' 9092 (Some 120) True, SendAll [1, 2], Shutdown, Close] = 0"
    by simp
  from connection_error_leaves_disconnected
    [of True "client (Some (peer [Data [0, 0], RecvError])) PyNone" ?w "client None PyNone"
       "\<lparr>dials = [], trace = [Connect ''broker'' 9092 (Some 120) True, Recv 4, Recv 2, Shutdown, Close]\<rparr>"
       7]
    h3 b3
  have c3: "open_handles [Connect ''broker'' 9092 (Some 120) True, Recv 4, Recv 2, Shutdown, Close] = 0"
    by simp
  from h1 h2 h3 c1 c2 c3 show ?thesis by blast
qed

subsection \<open>Construction and the connected state\<close>

lemma raise_connection_error_no_connect:
  "raise_connection_error self w = (r, self', w') \<Longrightarrow>
     \<exists>ext. trace w' = trace w @ ext \<and> \<not> list_ex is_connect ext"
  by (auto simp: raise_connection_error_def close_def split: option.splits if_splits)

lemma ssl_wrapper_no_connect:
  "ssl_wrapper PY3 self w = (r, self', w') \<Longrightarrow>
     \<exists>ext. trace w' = trace w @ ext \<and> \<not> list_ex is_connect ext"
  by (auto simp: ssl_wrapper_def wrap_socket_def Let_def
      split: sslopts_attr.splits if_splits outcome.splits option.splits handshake.splits prod.splits)

lemma reinit_one_connect:
  assumes "sock self = None" and "reinit PY3 self w = (r, self', w')"
  shows "\<exists>ok more. trace w' = trace w @ Connect (host self) (port self) (timeout self) ok # more
           \<and> \<not> list_ex is_connect more"
proof -
  obtain rc w2 where cc: "create_connection (host self) (port self) (timeout self) w = (rc, w2)"
    by (cases "create_connection (host self) (port self) (timeout self) w")
  from create_connection_effect [OF cc] show ?thesis
  proof
    assume f: "rc = Raise SocketError \<and> trace w2 = trace w @ [Connect (host self) (port self) (timeout self) False]"
    with assms cc have "raise_connection_error self w2 = (r, self', w')"
      by (simp add: reinit_def)
    from raise_connection_error_no_connect [OF this] f show ?thesis by auto
  next
    assume "\<exists>s. rc = Return s \<and> trace w2 = trace w @ [Connect (host self) (port self) (timeout self) True]"
    then obtain s where rc: "rc = Return s"
      and t2: "trace w2 = trace w @ [Connect (host self) (port self) (timeout self) True]" by blast
    let ?self2 = "self\<lparr>sock := Some s\<rparr>"
    show ?thesis
    proof (cases "tls_requested (sslopts ?self2) = Return True")
      case False
      with assms cc rc have "w' = w2"
        by (cases "tls_requested (sslopts self)")
           (auto simp: reinit_def Let_def split: bool.splits if_splits)
      with t2 show ?thesis by auto
    next
      case True
      obtain rw self3 w3 where sw: "ssl_wrapper PY3 ?self2 w2 = (rw, self3, w3)"
        by (cases "ssl_wrapper PY3 ?self2 w2")
      from ssl_wrapper_no_connect [OF sw] obtain ext3 where
        e3: "trace w3 = trace w2 @ ext3" "\<not> list_ex is_connect ext3" by auto
      have "\<exists>ext. trace w' = trace w3 @ ext \<and> \<not> list_ex is_connect ext"
      proof (cases "\<exists>e. rw = Raise e \<and> is_socket_error e")
        case True
        with \<open>tls_requested (sslopts ?self2) = Return True\<close> assms cc rc sw
        have "raise_connection_error self3 w3 = (r, self', w')"
          by (auto simp: reinit_def)
        from raise_connection_error_no_connect [OF this] show ?thesis by auto
      next
        case False
        with \<open>tls_requested (sslopts ?self2) = Return True\<close> assms cc rc sw
        have "w' = w3"
          by (cases rw) (auto simp: reinit_def)
        then show ?thesis by simp
      qed
      then obtain ext where "trace w' = trace w3 @ ext" "\<not> list_ex is_connect ext" by blast
      with e3 t2 have "trace w' = trace w @ Connect (host self) (port self) (timeout self) True # (ext3 @ ext)"
        "\<not> list_ex is_connect (ext3 @ ext)" by auto
      then show ?thesis by blast
    qed
  qed
qed

text \<open>
  C7, as the spec states it, fails: \<^verbatim>\<open>__init__\<close> ends with a call of
  \<^verbatim>\<open>reinit\<close>, so constructing a client dials, and with a broker that accepts the
  new object is connected.
\<close>

theorem constructor_dials_at_once:
  "init False ''broker'' 9092 PyNone (Some 120) (fresh_network [Accepted (peer [])]) =
     (Return (), client (Some (peer [])) PyNone,
      \<lparr>dials = [], trace = [Connect ''broker'' 9092 (Some 120) True]\<rparr>)"
  by (simp add: init_def reinit_def create_connection_def tls_requested_def
      client_def peer_def fresh_network_def)

text \<open>
  C7, amended. The constructor sets \<^verbatim>\<open>_sock\<close> to \<^verbatim>\<open>None\<close> and dials at once
  and once: the connect is the first call it makes on the socket library and the only
  connect among its calls; when it returns the
  object is connected, and when it raises \<^verbatim>\<open>ConnectionError\<close> the object holds no
  socket. The only way from disconnected to connected is a successful dial: whenever
  \<^verbatim>\<open>reinit\<close>, \<^verbatim>\<open>send\<close> or \<^verbatim>\<open>recv\<close> starts without a socket and ends with
  one, a successful connect is among the calls it made; \<^verbatim>\<open>close\<close> and
  \<^verbatim>\<open>copy\<close> always end without one.
\<close>

theorem connected_only_by_dial:
  "(init PY3 h p so t w = (r, self', w') \<longrightarrow>
      (\<exists>ok more. trace w' = trace w @ Connect h p t ok # more \<and> \<not> list_ex is_connect more)
      \<and> (r = Return () \<longrightarrow> sock self' \<noteq> None)
      \<and> (r = Raise ConnectionError \<longrightarrow> sock self' = None))
   \<and> (sock self = None \<and> sock self' \<noteq> None
        \<and> (reinit PY3 self w = (r, self', w')
             \<or> send PY3 self request_id payload w = (r, self', w')
             \<or> recv PY3 self request_id w = Some (r', self', w')) \<longrightarrow>
        (\<exists>ext. trace w' = trace w @ ext \<and> list_ex is_dial_ok ext))
   \<and> sock (fst (close self w)) = None
   \<and> sock (copy PY3 self) = None"
proof (intro conjI impI)
  assume i: "init PY3 h p so t w = (r, self', w')"
  let ?self0 = "\<lparr>host = h, port = p, timeout = t, sock = None, sslopts = so\<rparr>"
  from i have ri: "reinit PY3 ?self0 w = (r, self', w')" by (simp add: init_def)
  from reinit_one_connect [OF _ ri]
  show "\<exists>ok more. trace w' = trace w @ Connect h p t ok # more \<and> \<not> list_ex is_connect more"
    by simp
  from reinit_effect [OF ri]
  show "r = Return () \<Longrightarrow> sock self' \<noteq> None" "r = Raise ConnectionError \<Longrightarrow> sock self' = None"
    by auto
next
  assume a: "sock self = None \<and> sock self' \<noteq> None
        \<and> (reinit PY3 self w = (r, self', w')
             \<or> send PY3 self request_id payload w = (r, self', w')
             \<or> recv PY3 self request_id w = Some (r', self', w'))"
  then have "\<exists>ext. trace w' = trace w @ ext \<and> open_handles ext = live self' - live self"
    by (auto dest: reinit_effect send_effect recv_effect)
  then obtain ext where "trace w' = trace w @ ext" "open_handles ext = live self' - live self"
    by blast
  moreover from this a have "0 < open_handles ext" by (simp add: live_def)
  then have "list_ex is_dial_ok ext" by (rule open_handles_pos_dial)
  ultimately show "\<exists>ext. trace w' = trace w @ ext \<and> list_ex is_dial_ok ext" by blast
next
  show "sock (fst (close self w)) = None"
    by (simp add: close_def split: option.splits)
  show "sock (copy PY3 self) = None"
    by (simp add: copy_def)
qed

theorem connected_only_by_dial_witness:
  "init True ''broker'' 9092 PyNone None (fresh_network [Refused]) =
     (Raise ConnectionError,
      \<lparr>host = ''broker'', port = 9092, timeout = None, sock = None, sslopts = PyNone\<rparr>,
      \<lparr>dials = [], trace = [Connect ''broker'' 9092 None False]\<rparr>)
   \<and> (\<exists>ok more. [Connect ''broker'' 9092 None False] = [] @ Connect ''broker'' 9092 None ok # more
                   \<and> \<not> list_ex is_connect more)
   \<and> send False (client None PyNone) 1 [5] (fresh_network [Accepted (peer [])]) =
     (Return (), client (Some ((peer [])\<lparr>sent := [5]\<rparr>)) PyNone,
      \<lparr>dials = [], trace = [Connect ''broker'' 9092 (Some 120) True, SendAll [5]]\<rparr>)
   \<and> (\<exists>ext. [Connect ''broker'' 9092 (Some 120) True, SendAll [5]] = [] @ ext \<and> list_ex is_dial_ok ext)"
proof -
  have h1: "init True ''broker'' 9092 PyNone None (fresh_network [Refused]) =
     (Raise ConnectionError,
      \<lparr>host = ''broker'', port = 9092, timeout = None, sock = None, sslopts = PyNone\<rparr>,
      \<lparr>dials = [], trace = [Connect ''broker'' 9092 None False]\<rparr>)"
    by (simp add: init_def reinit_def create_connection_def raise_connection_error_def
        fresh_network_def)
  have h2: "send False (client None PyNone) 1 [5] (fresh_network [Accepted (peer [])]) =
     (Return (), client (Some ((peer [])\<lparr>sent := [5]\<rparr>)) PyNone,
      \<lparr>dials = [], trace = [Connect ''broker'' 9092 (Some 120) True, SendAll [5]]\<rparr>)"
    by (simp add: send_def sendall_def reinit_def create_connection_def tls_requested_def
        client_def peer_def fresh_network_def)
  have s0: "sock (client None PyNone) = None"
    and s1: "sock (client (Some ((peer [])\<lparr>sent := [5]\<rparr>)) PyNone) \<noteq> None"
    by (simp_all add: client_def)
  from connected_only_by_dial
    [of True "''broker''" 9092 PyNone None "fresh_network [Refused]" "Raise ConnectionError"
       "\<lparr>host = ''broker'', port = 9092, timeout = None, sock = None, sslopts = PyNone\<rparr>"
       "\<lparr>dials = [], trace = [Connect ''broker'' 9092 None False]\<rparr>"] h1
  have c1: "\<exists>ok more. [Connect ''broker'' 9092 None False] = [] @ Connect ''broker'' 9092 None ok # more
                   \<and> \<not> list_ex is_connect more"
    by (simp add: fresh_network_def)
  from connected_only_by_dial
    [of False _ _ _ _ "fresh_network [Accepted (peer [])]" "Return ()"
       "client (Some ((peer [])\<lparr>sent := [5]\<rparr>)) PyNone"
       "\<lparr>dials = [], trace = [Connect ''broker'' 9092 (Some 120) True, SendAll [5]]\<rparr>"
       "client None PyNone" 1 "[5]"] h2 s0 s1
  have c2: "\<exists>ext. [Connect ''broker'' 9092 (Some 120) True, SendAll [5]] = [] @ ext \<and> list_ex is_dial_ok ext"
    by (simp add: fresh_network_def)
  from h1 h2 c1 c2 show ?thesis by blast
qed

subsection \<open>\<^verbatim>\<open>copy\<close>\<close>

lemma copy_keeps_address:
  "host (copy PY3 self) = host self \<and> port (copy PY3 self) = port self
   \<and> timeout (copy PY3 self) = timeout self \<and> sock (copy PY3 self) = None
   \<and> (\<not> PY3 \<longrightarrow> sslopts (copy PY3 self) = sslopts self)"
  by (simp add: copy_def deepcopy_sslopts_def)

text \<open>
  C4, at the input where the code departs from it. Under Python 3 the copy of a client
  with TLS options has the host, the port and the timeout of the original and no socket,
  but no \<^verbatim>\<open>sslopts\<close> at all: \<^verbatim>\<open>copy\<close> assigns the other three attributes again
  after the deep copy and leaves this one out. The \<^verbatim>\<open>reinit\<close> that its new owner must
  call dials and then fails with \<^verbatim>\<open>AttributeError\<close>. Under Python 2 the same copy
  carries the options.
\<close>

theorem copy_py3_loses_sslopts:
  "copy True (client (Some (peer [])) (Dict [(''security.protocol'', Str ''SSL'')])) = client None Unset
   \<and> reinit True (client None Unset) (fresh_network [Accepted (peer [])]) =
     (Raise AttributeError, client (Some (peer [])) Unset,
      \<lparr>dials = [], trace = [Connect ''broker'' 9092 (Some 120) True]\<rparr>)
   \<and> copy False (client (Some (peer [])) (Dict [(''security.protocol'', Str ''SSL'')])) =
     client None (Dict [(''security.protocol'', Str ''SSL'')])"
  by (simp add: copy_def deepcopy_sslopts_def reinit_def create_connection_def tls_requested_def
      client_def peer_def fresh_network_def)

subsection \<open>TLS options\<close>

lemma unsupported_key_exits:
  "sslopts self = Dict d \<Longrightarrow> list_ex (\<lambda>key. key \<notin> set (supported PY3)) (map fst d) \<Longrightarrow>
     ssl_wrapper PY3 self w = (Raise (SystemExit 1), self, w)"
  by (simp add: ssl_wrapper_def)

lemma ca_reqs_not_supported: "''ca_reqs'' \<notin> set (supported PY3)"
  by (simp add: supported_def)

lemma supported_keys_no_ca_reqs:
  assumes "\<not> list_ex (\<lambda>key. key \<notin> set (supported PY3)) (map fst d)"
  shows "map_of d ''ca_reqs'' = None"
proof (rule ccontr)
  assume "map_of d ''ca_reqs'' \<noteq> None"
  then have "''ca_reqs'' \<in> set (map fst d)"
    by (metis domIff dom_map_of_conv_image_fst list.set_map)
  with assms have "''ca_reqs'' \<in> set (supported PY3)"
    by (auto simp: list_ex_iff)
  then show False by (simp add: ca_reqs_not_supported)
qed

lemma cert_reqs_always_KeyError:
  assumes "sslopts self = Dict d" and "\<not> list_ex (\<lambda>key. key \<notin> set (supported PY3)) (map fst d)"
    and "''cert_reqs'' \<in> set (map fst d)"
  shows "ssl_wrapper PY3 self w = (Raise KeyError, self, w)"
  using assms supported_keys_no_ca_reqs [OF assms(2)] by (simp add: ssl_wrapper_def)

lemma cert_reqs_default:
  assumes "sslopts self = Dict d" and "\<not> list_ex (\<lambda>key. key \<notin> set (supported PY3)) (map fst d)"
    and "''cert_reqs'' \<notin> set (map fst d)" and "sock self = Some s"
    and "ssl_wrapper PY3 self w = (r, self', w')"
  shows "\<exists>args. trace w' = trace w @ [WrapSocket args] \<and> cert_reqs args = CERT_NONE"
  using assms
  by (auto simp: ssl_wrapper_def wrap_socket_def Let_def split: handshake.splits if_splits)

text \<open>
  C6, at the input where the code departs from it. With \<^verbatim>\<open>cert_reqs\<close> among the
  options, \<^verbatim>\<open>ssl_wrapper\<close> reads the key \<^verbatim>\<open>'ca_reqs'\<close>, which a map that passed
  the key check cannot hold, and raises \<^verbatim>\<open>KeyError\<close> before it wraps anything; the
  constructor that reached it leaves the plain socket open. (Lemma
  \<open>cert_reqs_always_KeyError\<close> has this for every such map, lemma
  \<open>cert_reqs_default\<close> the default of no verification.)
\<close>

theorem cert_reqs_option_raises_KeyError:
  "ssl_wrapper False
     (client (Some (peer [])) (Dict [(''security.protocol'', Str ''SSL''), (''cert_reqs'', Num 2)]))
     (fresh_network []) =
     (Raise KeyError,
      client (Some (peer [])) (Dict [(''security.protocol'', Str ''SSL''), (''cert_reqs'', Num 2)]),
      fresh_network [])
   \<and> init False ''broker'' 9092 (Dict [(''security.protocol'', Str ''SSL''), (''cert_reqs'', Num 2)])
       (Some 120) (fresh_network [Accepted (peer [])]) =
     (Raise KeyError,
      client (Some (peer [])) (Dict [(''security.protocol'', Str ''SSL''), (''cert_reqs'', Num 2)]),
      \<lparr>dials = [], trace = [Connect ''broker'' 9092 (Some 120) True]\<rparr>)"
  by (simp add: init_def reinit_def create_connection_def tls_requested_def ssl_wrapper_def
      supported_def upper_def upper_char_def client_def peer_def fresh_network_def)

text \<open>
  C5, as the spec states it, fails: an options map with the key \<^verbatim>\<open>"bogus"\<close> that
  does not select TLS is never checked. The client dials, returns and is connected.
\<close>

theorem unknown_key_ignored_without_tls:
  "init False ''broker'' 9092 (Dict [(''bogus'', Str ''x'')]) (Some 120)
     (fresh_network [Accepted (peer [])]) =
     (Return (), client (Some (peer [])) (Dict [(''bogus'', Str ''x'')]),
      \<lparr>dials = [], trace = [Connect ''broker'' 9092 (Some 120) True]\<rparr>)"
  by (simp add: init_def reinit_def create_connection_def tls_requested_def
      client_def peer_def fresh_network_def)

lemma reinit_dial_fails:
  assumes "\<And>s ds. dials w \<noteq> Accepted s # ds"
  shows "fst (reinit PY3 self w) = Raise ConnectionError"
proof -
  obtain self1 w1 where c: "(if sock self \<noteq> None then close self w else (self, w)) = (self1, w1)"
    by (cases "if sock self \<noteq> None then close self w else (self, w)")
  then have d: "dials w1 = dials w"
    by (auto split: if_splits dest: close_effect)
  have "\<exists>w2. create_connection (host self1) (port self1) (timeout self1) w1 = (Raise SocketError, w2)"
    using assms d by (auto simp: create_connection_def split: list.splits dial.splits)
  then obtain w2 where "create_connection (host self1) (port self1) (timeout self1) w1 = (Raise SocketError, w2)"
    by blast
  with c have "reinit PY3 self w = raise_connection_error self1 w2"
    by (simp add: reinit_def)
  then show ?thesis by (simp add: raise_connection_error_def split: prod.splits)
qed

text \<open>
  C5, amended. The keys are checked inside \<^verbatim>\<open>ssl_wrapper\<close>, before it makes any call
  on the socket: a key outside the supported set ends it with \<^verbatim>\<open>SystemExit(1)\<close>.
  \<^verbatim>\<open>reinit\<close> reaches that check only after a successful dial and only when the map
  selects TLS (\<^verbatim>\<open>'security.protocol'\<close> with the value \<^verbatim>\<open>'SSL'\<close> in any letter
  case): then it exits with the new socket connected and left open, having made no wrap,
  read or write. When TLS is not selected it returns or raises
  \<^verbatim>\<open>ConnectionError\<close> whatever the keys are, and when the dial fails it raises
  \<^verbatim>\<open>ConnectionError\<close>.
\<close>

theorem unknown_key_exits_after_dial_when_tls_selected:
  "(sslopts self = Dict d \<and> list_ex (\<lambda>key. key \<notin> set (supported PY3)) (map fst d) \<longrightarrow>
      ssl_wrapper PY3 self w = (Raise (SystemExit 1), self, w))
   \<and> (sslopts self = Dict d \<and> list_ex (\<lambda>key. key \<notin> set (supported PY3)) (map fst d)
        \<and> map_of d ''security.protocol'' = Some (Str p) \<and> upper p = ''SSL''
        \<and> dials w = Accepted s # ds \<longrightarrow>
      reinit PY3 self w =
        (Raise (SystemExit 1),
         self\<lparr>sock := Some (s\<lparr>sock_timeout := timeout self\<rparr>)\<rparr>,
         w\<lparr>dials := ds,
           trace := trace w @ (if sock self = None then [] else [Shutdown, Close])
                    @ [Connect (host self) (port self) (timeout self) True]\<rparr>))
   \<and> (tls_requested (sslopts self) = Return False \<longrightarrow>
        fst (reinit PY3 self w) = Return () \<or> fst (reinit PY3 self w) = Raise ConnectionError)
   \<and> ((\<forall>s ds. dials w \<noteq> Accepted s # ds) \<longrightarrow> fst (reinit PY3 self w) = Raise ConnectionError)"
proof (intro conjI impI)
  assume "sslopts self = Dict d \<and> list_ex (\<lambda>key. key \<notin> set (supported PY3)) (map fst d)"
  then show "ssl_wrapper PY3 self w = (Raise (SystemExit 1), self, w)"
    by (simp add: unsupported_key_exits)
next
  assume a: "sslopts self = Dict d \<and> list_ex (\<lambda>key. key \<notin> set (supported PY3)) (map fst d)
        \<and> map_of d ''security.protocol'' = Some (Str p) \<and> upper p = ''SSL''
        \<and> dials w = Accepted s # ds"
  then have dne: "d \<noteq> []" by auto
  with a have tls: "tls_requested (Dict d) = Return True"
    by (simp add: tls_requested_def)
  let ?s1 = "s\<lparr>sock_timeout := timeout self\<rparr>"
  show "reinit PY3 self w =
        (Raise (SystemExit 1), self\<lparr>sock := Some ?s1\<rparr>,
         w\<lparr>dials := ds,
           trace := trace w @ (if sock self = None then [] else [Shutdown, Close])
                    @ [Connect (host self) (port self) (timeout self) True]\<rparr>)"
  proof (cases "sock self")
    case None
    with a tls show ?thesis
      by (simp add: reinit_def create_connection_def unsupported_key_exits)
  next
    case (Some s0)
    with a tls show ?thesis
      by (simp add: reinit_def close_def create_connection_def unsupported_key_exits)
  qed
next
  assume f: "tls_requested (sslopts self) = Return False"
  obtain self1 w1 where c: "(if sock self \<noteq> None then close self w else (self, w)) = (self1, w1)"
    by (cases "if sock self \<noteq> None then close self w else (self, w)")
  then have so: "sslopts self1 = sslopts self"
    by (auto simp: close_def split: if_splits option.splits)
  obtain rc w2 where cc: "create_connection (host self1) (port self1) (timeout self1) w1 = (rc, w2)"
    by (cases "create_connection (host self1) (port self1) (timeout self1) w1")
  from create_connection_effect [OF cc]
  show "fst (reinit PY3 self w) = Return () \<or> fst (reinit PY3 self w) = Raise ConnectionError"
  proof
    assume "rc = Raise SocketError \<and> trace w2 = trace w1 @ [Connect (host self1) (port self1) (timeout self1) False]"
    with c cc have "reinit PY3 self w = raise_connection_error self1 w2"
      by (simp add: reinit_def)
    then show ?thesis by (simp add: raise_connection_error_def split: prod.splits)
  next
    assume "\<exists>s. rc = Return s \<and> trace w2 = trace w1 @ [Connect (host self1) (port self1) (timeout self1) True]"
    with c cc f so show ?thesis
      by (auto simp: reinit_def)
  qed
next
  assume "\<forall>s ds. dials w \<noteq> Accepted s # ds"
  then show "fst (reinit PY3 self w) = Raise ConnectionError"
    by (intro reinit_dial_fails) simp
qed

theorem unknown_key_exits_after_dial_when_tls_selected_witness:
  "ssl_wrapper True (client (Some (peer [])) (Dict [(''security.protocol'', Str ''ssl''), (''bogus'', Str ''x'')]))
      (fresh_network []) =
     (Raise (SystemExit 1),
      client (Some (peer [])) (Dict [(''security.protocol'', Str ''ssl''), (''bogus'', Str ''x'')]),
      fresh_network [])
   \<and> reinit True (client None (Dict [(''security.protocol'', Str ''ssl''), (''bogus'', Str ''x'')]))
      (fresh_network [Accepted (peer [])]) =
     (Raise (SystemExit 1),
      client (Some (peer [])) (Dict [(''security.protocol'', Str ''ssl''), (''bogus'', Str ''x'')]),
      \<lparr>dials = [], trace = [Connect ''broker'' 9092 (Some 120) True]\<rparr>)
   \<and> (fst (reinit True (client None (Dict [(''bogus'', Str ''x'')])) (fresh_network [Accepted (peer [])])) = Return ()
        \<or> fst (reinit True (client None (Dict [(''bogus'', Str ''x'')])) (fresh_network [Accepted (peer [])]))
            = Raise ConnectionError)
   \<and> fst (reinit True (client None (Dict [(''security.protocol'', Str ''ssl''), (''bogus'', Str ''x'')]))
          (fresh_network [Refused])) = Raise ConnectionError"
proof -
  let ?d = "[(''security.protocol'', Str ''ssl''), (''bogus'', Str ''x'')]"
  have k: "list_ex (\<lambda>key. key \<notin> set (supported True)) (map fst ?d)"
    by (simp add: supported_def)
  have u: "upper ''ssl'' = ''SSL''"
    by (simp add: upper_def upper_char_def)
  have c1: "ssl_wrapper True (client (Some (peer [])) (Dict ?d)) (fresh_network []) =
     (Raise (SystemExit 1), client (Some (peer [])) (Dict ?d), fresh_network [])"
    using unknown_key_exits_after_dial_when_tls_selected
      [of "client (Some (peer [])) (Dict ?d)" ?d True "fresh_network []"] k
    by (simp add: client_def)
  have c2: "reinit True (client None (Dict ?d)) (fresh_network [Accepted (peer [])]) =
     (Raise (SystemExit 1), client (Some (peer [])) (Dict ?d),
      \<lparr>dials = [], trace = [Connect ''broker'' 9092 (Some 120) True]\<rparr>)"
    using unknown_key_exits_after_dial_when_tls_selected
      [of "client None (Dict ?d)" ?d True "fresh_network [Accepted (peer [])]" "''ssl''" "peer []" "[]"] k u
    by (simp add: client_def peer_def fresh_network_def)
  have c3: "fst (reinit True (client None (Dict [(''bogus'', Str ''x'')])) (fresh_network [Accepted (peer [])])) = Return ()
        \<or> fst (reinit True (client None (Dict [(''bogus'', Str ''x'')])) (fresh_network [Accepted (peer [])]))
            = Raise ConnectionError"
    using unknown_key_exits_after_dial_when_tls_selected
      [of "client None (Dict [(''bogus'', Str ''x'')])" _ True "fresh_network [Accepted (peer [])]"]
    by (simp add: client_def tls_requested_def)
  have c4: "fst (reinit True (client None (Dict ?d)) (fresh_network [Refused])) = Raise ConnectionError"
    using unknown_key_exits_after_dial_when_tls_selected
      [of "client None (Dict ?d)" _ True "fresh_network [Refused]"]
    by (simp add: fresh_network_def)
  from c1 c2 c3 c4 show ?thesis by blast
qed

end
